theory Spec2Isabelle
  imports
    Complex_Main
    "HOL-Library.Log_Nat"
    "HOL-Library.Char_ord"
    "HOL-Library.List_Lexorder"
    "HOL-Library.Sublist"
    "HOL-Library.Multiset"
    "HOL-Library.AList"
begin

chapter \<open>Sessions dashboard: usage aggregation and cost estimation\<close>

text \<open>
  A shallow embedding of \<^verbatim>\<open>server.py\<close>: the cost calculator \<^verbatim>\<open>_cost\<close>, the project
  path decoder \<^verbatim>\<open>_decode_project_folder\<close>, the usage aggregator \<^verbatim>\<open>compute_usage\<close> and
  the session summarizer \<^verbatim>\<open>compute_sessions\<close>.

  Conventions of the embedding.
  \<^item> A Python \<^verbatim>\<open>int\<close> is an \<open>int\<close>.
  \<^item> A Python \<^verbatim>\<open>float\<close> is the rational number it denotes; every float operation rounds
    its exact result to the nearest number with a 53-bit significand, ties to even
    (\<open>fl\<close> below). The exponent range of binary64 is not part of \<open>fl\<close>: the float
    operations below are those of Python as long as every token count is below \<open>2 ^ 1000\<close>
    in absolute value. Beyond the range of binary64 Python returns \<^verbatim>\<open>inf\<close> or raises
    \<^verbatim>\<open>OverflowError\<close>, where these operations go on with finite numbers; the statements
    that depend on it carry the bound on the token counts as a hypothesis.
  \<^item> A Python \<^verbatim>\<open>dict\<close> is an association list in insertion order.
  \<^item> A Python \<^verbatim>\<open>str\<close> is a \<open>string\<close>.
\<close>

section \<open>Binary floating point\<close>

text \<open>The exponent \<open>e\<close> with \<open>2 ^ e \<le> \<bar>x\<bar> < 2 ^ (e + 1)\<close>, for \<open>x \<noteq> 0\<close>.\<close>

definition binade :: "rat \<Rightarrow> int" where
  "binade x =
     (case quotient_of \<bar>x\<bar> of (p, q) \<Rightarrow>
        let d = bitlen p - bitlen q
        in if 2 powi d \<le> \<bar>x\<bar> then d else d - 1)"

text \<open>Rounding to the nearest integer, a tie going to the even neighbour.\<close>

definition round_half_even :: "rat \<Rightarrow> int" where
  "round_half_even r =
     (let f = \<lfloor>r\<rfloor>; d = r - of_int f
      in if d < 1 / 2 then f
         else if 1 / 2 < d then f + 1
         else if even f then f else f + 1)"

text \<open>Rounding to the nearest float: the significand is scaled to 53 bits and rounded.\<close>

definition fl :: "rat \<Rightarrow> rat" where
  "fl x =
     (if x = 0 then 0
      else let u = 2 powi (binade x - 52)
           in of_int (round_half_even (x / u)) * u)"

text \<open>
  The float operations the program uses: \<^verbatim>\<open>a * b\<close>, \<^verbatim>\<open>a / b\<close>, \<^verbatim>\<open>a + b\<close>, the conversion of
  an \<^verbatim>\<open>int\<close> operand, and \<^verbatim>\<open>round(x, n)\<close>, which rounds the exact value of \<open>x\<close> to \<open>n\<close>
  decimals (ties to even) and returns the nearest float.
\<close>

definition fmul :: "rat \<Rightarrow> rat \<Rightarrow> rat" where
  "fmul a b = fl (a * b)"

definition fdiv :: "rat \<Rightarrow> rat \<Rightarrow> rat" where
  "fdiv a b = fl (a / b)"

definition fadd :: "rat \<Rightarrow> rat \<Rightarrow> rat" where
  "fadd a b = fl (a + b)"

text \<open>
  The conversion of an \<^verbatim>\<open>int\<close> operand, for an \<^verbatim>\<open>int\<close> within the range of binary64
  (Python raises \<^verbatim>\<open>OverflowError\<close> for one that is not).
\<close>

definition float_of_int :: "int \<Rightarrow> rat" where
  "float_of_int n = fl (of_int n)"

definition py_round :: "rat \<Rightarrow> nat \<Rightarrow> rat" where
  "py_round x n = fl (of_int (round_half_even (x * 10 ^ n)) / 10 ^ n)"


section \<open>Model pricing and the cost calculator\<close>

text \<open>A rate card: dollars per million tokens. The literals are floats.\<close>

record rates =
  r_input :: rat
  r_output :: rat
  r_cacheRead :: rat
  r_cacheWrite :: rat

definition rate_card :: "rat \<Rightarrow> rat \<Rightarrow> rat \<Rightarrow> rat \<Rightarrow> rates" where
  "rate_card i out cr cw =
     \<lparr>r_input = fl i, r_output = fl out, r_cacheRead = fl cr, r_cacheWrite = fl cw\<rparr>"

definition MODEL_PRICING :: "(string \<times> rates) list" where
  "MODEL_PRICING =
     [(''MiniMax-M2.5'',               rate_card (30 / 100) (120 / 100) (3 / 100) (30 / 100)),
      (''MiniMax-M2.1'',               rate_card (30 / 100) (120 / 100) (3 / 100) (30 / 100)),
      (''k2p5'',                       rate_card (60 / 100) (250 / 100) (10 / 100) (60 / 100)),
      (''kimi-k2.5'',                  rate_card (60 / 100) (250 / 100) (10 / 100) (60 / 100)),
      (''glm-4.7'',                    rate_card (60 / 100) (220 / 100) (11 / 100) (60 / 100)),
      (''claude-opus-4-6'',            rate_card 15 75 (150 / 100) 15),
      (''claude-sonnet-4-6'',          rate_card 3 15 (30 / 100) (375 / 100)),
      (''claude-sonnet-4-5-20250929'', rate_card 3 15 (30 / 100) (375 / 100)),
      (''claude-3-5-sonnet-20241022'', rate_card 3 15 (30 / 100) (375 / 100)),
      (''claude-3-5-haiku-20241022'',  rate_card (80 / 100) 4 (8 / 100) (80 / 100)),
      (''claude-haiku-4-5-20251001'',  rate_card (80 / 100) 4 (8 / 100) (80 / 100))]"

definition DEFAULT_PRICING :: rates where
  "DEFAULT_PRICING = rate_card 1 5 (10 / 100) 1"

text \<open>\<^verbatim>\<open>MODEL_PRICING.get(model, DEFAULT_PRICING)\<close>\<close>

definition pricing_get :: "string \<Rightarrow> rates" where
  "pricing_get model =
     (case map_of MODEL_PRICING model of Some r \<Rightarrow> r | None \<Rightarrow> DEFAULT_PRICING)"

text \<open>
  A usage dictionary: the four counters, and the key \<^verbatim>\<open>estimatedCost\<close> once it has been
  stored (\<open>None\<close> while the key is absent).
\<close>

record usage =
  u_input :: int
  u_output :: int
  u_cacheRead :: int
  u_cacheWrite :: int
  u_estimatedCost :: "rat option"

text \<open>The local \<^verbatim>\<open>net_input = max(0, usage['input'] - usage['cacheRead'] - usage['cacheWrite'])\<close>.\<close>

definition net_input :: "usage \<Rightarrow> int" where
  "net_input u = max 0 (u_input u - u_cacheRead u - u_cacheWrite u)"

text \<open>One summand \<^verbatim>\<open>n * rate / 1_000_000\<close>: an \<^verbatim>\<open>int\<close> times a float, divided by the \<^verbatim>\<open>int\<close>
  literal, which converts to the float \<open>10 ^ 6\<close> without rounding.\<close>

definition per_million :: "int \<Rightarrow> rat \<Rightarrow> rat" where
  "per_million n rate = fdiv (fmul (float_of_int n) rate) 1000000"

text \<open>
  \<^verbatim>\<open>_cost(model, usage)\<close>: the four summands, added from left to right. It is the value
  that Python returns when the four counters are below \<open>2 ^ 1000\<close> in absolute value: no
  summand then leaves the range of binary64.
\<close>

definition cost :: "string \<Rightarrow> usage \<Rightarrow> rat" where
  "cost model u =
     (let rates = pricing_get model
      in fadd (fadd (fadd
           (per_million (net_input u) (r_input rates))
           (per_million (u_output u) (r_output rates)))
           (per_million (u_cacheRead u) (r_cacheRead rates)))
           (per_million (u_cacheWrite u) (r_cacheWrite rates)))"


section \<open>Strings and paths\<close>

text \<open>\<^verbatim>\<open>sub in s\<close>\<close>

fun contains :: "string \<Rightarrow> string \<Rightarrow> bool" where
  "contains sub [] = (sub = [])"
| "contains sub (c # cs) = (prefix sub (c # cs) \<or> contains sub cs)"

text \<open>
  \<^verbatim>\<open>s.strip()\<close>: the characters Python counts as white space, among the code points below
  256 that a \<open>char\<close> stands for.
\<close>

definition is_space :: "char \<Rightarrow> bool" where
  "is_space c \<longleftrightarrow> (of_char c :: nat) \<in> {9, 10, 11, 12, 13, 28, 29, 30, 31, 32, 133, 160}"

definition strip :: "string \<Rightarrow> string" where
  "strip s = rev (dropWhile is_space (rev (dropWhile is_space s)))"

text \<open>\<^verbatim>\<open>s.split(c)\<close> for a separator of one character, and \<^verbatim>\<open>sep.join(parts)\<close>.\<close>

fun split :: "char \<Rightarrow> string \<Rightarrow> string list" where
  "split c [] = [[]]"
| "split c (x # xs) =
     (if x = c then [] # split c xs
      else (case split c xs of p # ps \<Rightarrow> (x # p) # ps | [] \<Rightarrow> [[x]]))"

fun join :: "string \<Rightarrow> string list \<Rightarrow> string" where
  "join sep [] = []"
| "join sep [p] = p"
| "join sep (p # q # ps) = p @ sep @ join sep (q # ps)"

text \<open>
  \<^verbatim>\<open>s.replace(old, new)\<close>: every occurrence, from the left, without overlap. With an empty
  \<^verbatim>\<open>old\<close> Python puts \<^verbatim>\<open>new\<close> before every character and at the end.
\<close>

function replace :: "string \<Rightarrow> string \<Rightarrow> string \<Rightarrow> string" where
  "replace old new s =
     (if old = [] then new @ concat (map (\<lambda>c. c # new) s)
      else if s = [] then []
      else if prefix old s then new @ replace old new (drop (length old) s)
      else hd s # replace old new (tl s))"
  by pat_completeness auto
termination
  by (relation "measure (\<lambda>(old, new, s). length s)") auto

declare replace.simps [simp del]

text \<open>\<^verbatim>\<open>os.path.join(a, b)\<close> and \<^verbatim>\<open>os.path.basename(p)\<close> of \<^verbatim>\<open>posixpath\<close>.\<close>

definition path_join :: "string \<Rightarrow> string \<Rightarrow> string" where
  "path_join a b =
     (if prefix ''/'' b then b
      else if a = [] \<or> last a = CHR ''/'' then a @ b
      else a @ ''/'' @ b)"

definition basename :: "string \<Rightarrow> string" where
  "basename p = last (split CHR ''/'' p)"

section \<open>The environment\<close>

text \<open>
  A parsed JSON value, as \<^verbatim>\<open>json.loads\<close> returns it: \<^verbatim>\<open>None\<close>, a \<^verbatim>\<open>bool\<close>, an \<^verbatim>\<open>int\<close>,
  a \<^verbatim>\<open>str\<close>, a \<^verbatim>\<open>list\<close> or a \<^verbatim>\<open>dict\<close>. Numbers with a fraction or an exponent are
  not covered: the counters of the logs are integers.
\<close>

datatype json =
    JNull
  | JBool bool
  | JInt int
  | JStr string
  | JArr "json list"
  | JObj "(string \<times> json) list"

text \<open>
  A session file as \<^verbatim>\<open>glob.glob\<close> lists it: its path, \<^verbatim>\<open>os.path.getmtime\<close> (seconds since
  the epoch, a float) and the lines that iterating over the open file yields.
\<close>

record session_file =
  f_path :: string
  f_mtime :: rat
  f_lines :: "string list"

text \<open>
  An entry of \<^verbatim>\<open>os.listdir(claude_dir)\<close>: its name, \<^verbatim>\<open>os.path.isdir\<close>, and the result of
  \<^verbatim>\<open>glob.glob(os.path.join(project_path, '*.jsonl'))\<close>.
\<close>

record project =
  p_folder :: string
  p_isdir :: bool
  p_files :: "session_file list"

text \<open>
  What the program reads from outside: the clock, the home directory, the file system and
  the library functions that are not part of it.
  \<^item> \<open>w_now\<close> is \<^verbatim>\<open>datetime.now()\<close>, a local date and time, counted in microseconds since
    1970-01-01 00:00 local time, within the years 1 to 9999; \<open>w_utcoffset\<close> is the offset
    of local time in microseconds.
  \<^item> \<open>w_home\<close> is \<^verbatim>\<open>os.path.expanduser('~')\<close>.
  \<^item> \<open>w_exists\<close> is \<^verbatim>\<open>os.path.exists\<close> and \<open>w_relpath\<close> is \<^verbatim>\<open>os.path.relpath\<close>.
  \<^item> \<open>w_loads\<close> is \<^verbatim>\<open>json.loads\<close>, \<open>None\<close> standing for \<^verbatim>\<open>JSONDecodeError\<close>, the one
    exception it is taken to raise.
  \<^item> \<open>w_fsum\<close> is \<^verbatim>\<open>sum\<close> over two or more floats.
  The log tree is given apart from it, as the listing of \<^verbatim>\<open>~/.claude/projects\<close>, or as
  \<open>None\<close> when that is not a directory. Every file of the tree is readable.
\<close>

record world =
  w_now :: int
  w_utcoffset :: int
  w_home :: string
  w_exists :: "string \<Rightarrow> bool"
  w_relpath :: "string \<Rightarrow> string \<Rightarrow> string"
  w_loads :: "string \<Rightarrow> json option"
  w_fsum :: "rat list \<Rightarrow> rat"

type_synonym tree = "project list option"

section \<open>The project path decoder\<close>

text \<open>\<^verbatim>\<open>home_encoded = '-' + home.replace('/', '-')[1:]\<close>\<close>

definition home_encoded :: "world \<Rightarrow> string" where
  "home_encoded w = ''-'' @ drop 1 (replace ''/'' ''-'' (w_home w))"

text \<open>
  The loop \<^verbatim>\<open>while i < len(parts)\<close>, with the two \<^verbatim>\<open>return\<close> statements that end it.
  The inner loop \<^verbatim>\<open>for j in range(len(parts), i, -1)\<close> looks for the first \<open>j\<close> whose
  candidate exists; \<open>None\<close> is its \<^verbatim>\<open>else\<close> branch.
\<close>

function decode_loop :: "world \<Rightarrow> string \<Rightarrow> string list \<Rightarrow> string \<Rightarrow> string \<Rightarrow> nat \<Rightarrow> string" where
  "decode_loop w folder_name parts best path i =
     (if i < length parts then
        (case List.find (\<lambda>j. w_exists w (path_join path (join ''-'' (take (j - i) (drop i parts)))))
                (rev [Suc i ..< Suc (length parts)]) of
           Some j \<Rightarrow>
             (let test_path = path_join path (join ''-'' (take (j - i) (drop i parts)))
              in decode_loop w folder_name parts test_path test_path j)
         | None \<Rightarrow>
             (let remaining = join ''-'' (drop i parts)
              in if path \<noteq> w_home w
                 then ''~/'' @ w_relpath w path (w_home w) @ ''/'' @ remaining
                 else ''~/'' @ remaining))
      else if best \<noteq> [] then ''~/'' @ w_relpath w best (w_home w)
      else folder_name)"
  by pat_completeness auto
termination
proof (relation "measure (\<lambda>(w, folder_name, parts, best, path, i). length parts - i)")
  show "wf (measure (\<lambda>(w, folder_name, parts, best, path, i). length parts - i))"
    by simp
next
  fix w :: world and folder_name :: string and parts :: "string list"
    and best path :: string and i j :: nat and test_path :: string
  assume i: "i < length parts"
    and f: "List.find (\<lambda>j. w_exists w (path_join path (join ''-'' (take (j - i) (drop i parts)))))
              (rev [Suc i ..< Suc (length parts)]) = Some j"
  from f have "j \<in> set (rev [Suc i ..< Suc (length parts)])"
    by (metis find_Some_iff nth_mem)
  then have "i < j" by (simp del: upt_Suc)
  with i show "((w, folder_name, parts, test_path, test_path, j),
                (w, folder_name, parts, best, path, i))
               \<in> measure (\<lambda>(w, folder_name, parts, best, path, i). length parts - i)"
    by simp
qed

declare decode_loop.simps [simp del]

text \<open>\<^verbatim>\<open>_decode_project_folder(folder_name)\<close>\<close>

definition decode_project_folder :: "world \<Rightarrow> string \<Rightarrow> string" where
  "decode_project_folder w folder_name =
     (if folder_name = home_encoded w then ''~''
      else if prefix (home_encoded w @ ''-'') folder_name then
        (let remainder = drop (length (home_encoded w @ ''-'')) folder_name;
             parts = split CHR ''-'' remainder
         in decode_loop w folder_name parts [] (w_home w) 0)
      else folder_name)"

section \<open>Dates\<close>

text \<open>
  The calendar date (year, month, day) of a day number counted from 1970-01-01, in the
  proleptic Gregorian calendar of \<^verbatim>\<open>datetime\<close>: the day within its era of 400 years, the
  year within the era, the day within the year counted from the first of March, and the
  month.
\<close>

definition civil_of_month :: "int \<Rightarrow> int \<Rightarrow> int \<Rightarrow> int \<times> int \<times> int" where
  "civil_of_month y mp d = (if mp < 10 then (y, mp + 3, d) else (y + 1, mp - 9, d))"

definition civil_of_year :: "int \<Rightarrow> int \<Rightarrow> int \<times> int \<times> int" where
  "civil_of_year y doy =
     civil_of_month y ((5 * doy + 2) div 153) (doy - (153 * ((5 * doy + 2) div 153) + 2) div 5 + 1)"

definition year_of_era :: "int \<Rightarrow> int" where
  "year_of_era doe = (doe - doe div 1460 + doe div 36524 - doe div 146096) div 365"

definition civil_of_era :: "int \<Rightarrow> int \<Rightarrow> int \<times> int \<times> int" where
  "civil_of_era era doe =
     civil_of_year (year_of_era doe + era * 400)
       (doe - (365 * year_of_era doe + year_of_era doe div 4 - year_of_era doe div 100))"

definition civil_from_days :: "int \<Rightarrow> int \<times> int \<times> int" where
  "civil_from_days n = civil_of_era ((n + 719468) div 146097) ((n + 719468) mod 146097)"

text \<open>A number in decimal, padded with zeros to \<open>k\<close> digits.\<close>

fun pad :: "nat \<Rightarrow> int \<Rightarrow> string" where
  "pad 0 n = []"
| "pad (Suc k) n = pad k (n div 10) @ [''0123456789'' ! nat (n mod 10)]"

text \<open>
  The year as \<^verbatim>\<open>%Y\<close> writes it for the years 1 to 9999: \<^verbatim>\<open>strftime\<close> is the one of the C
  library, which on Linux puts no zeros before a year below 1000.
\<close>

definition year_str :: "int \<Rightarrow> string" where
  "year_str y =
     (if y < 10 then pad 1 y else if y < 100 then pad 2 y else if y < 1000 then pad 3 y
      else pad 4 y)"

text \<open>
  \<^verbatim>\<open>t.strftime('%Y-%m-%d')\<close> and \<^verbatim>\<open>t.isoformat()\<close> of a local date and time \<open>t\<close>;
  \<^verbatim>\<open>isoformat\<close> writes the year with four digits.
\<close>

definition strftime_ymd :: "int \<Rightarrow> string" where
  "strftime_ymd t =
     (case civil_from_days (t div 86400000000) of
        (y, m, d) \<Rightarrow> year_str y @ ''-'' @ pad 2 m @ ''-'' @ pad 2 d)"

definition hms :: "int \<Rightarrow> string" where
  "hms secs = pad 2 (secs div 3600) @ '':'' @ pad 2 (secs div 60 mod 60) @ '':'' @ pad 2 (secs mod 60)"

definition isoformat :: "int \<Rightarrow> string" where
  "isoformat t =
     (case civil_from_days (t div 86400000000) of
        (y, m, d) \<Rightarrow> pad 4 y @ ''-'' @ pad 2 m @ ''-'' @ pad 2 d)
       @ ''T'' @ hms (t mod 86400000000 div 1000000)
       @ (if t mod 1000000 = 0 then [] else ''.'' @ pad 6 (t mod 1000000))"

text \<open>
  The range of \<^verbatim>\<open>datetime\<close>: \<^verbatim>\<open>datetime.min\<close> is 0001-01-01 00:00:00 and \<^verbatim>\<open>datetime.max\<close>
  is 9999-12-31 23:59:59.999999.
\<close>

definition datetime_min :: int where
  "datetime_min = - 62135596800000000"

definition datetime_max :: int where
  "datetime_max = 253402300799999999"

text \<open>
  \<^verbatim>\<open>datetime.fromtimestamp(mtime)\<close>: the whole seconds of the time stamp, and its fraction
  times the float \<open>10 ^ 6\<close> rounded to an integer, ties to even, in local time. \<open>None\<close>
  is the exception it raises when the result is not within the range of \<^verbatim>\<open>datetime\<close>.
\<close>

definition trunc :: "rat \<Rightarrow> int" where
  "trunc x = (if 0 \<le> x then \<lfloor>x\<rfloor> else \<lceil>x\<rceil>)"

definition fromtimestamp :: "world \<Rightarrow> rat \<Rightarrow> int option" where
  "fromtimestamp w mtime =
     (let t = trunc mtime * 1000000
                + round_half_even (fmul (mtime - of_int (trunc mtime)) 1000000)
                + w_utcoffset w
      in if datetime_min \<le> t \<and> t \<le> datetime_max then Some t else None)"

text \<open>
  \<^verbatim>\<open>datetime.now() - timedelta(days=days)\<close>. \<open>None\<close> is the \<^verbatim>\<open>OverflowError\<close> that
  \<^verbatim>\<open>timedelta\<close> raises for more than 999999999 days, and that the subtraction raises when
  the result is not within the range of \<^verbatim>\<open>datetime\<close>.
\<close>

definition cutoff_of :: "world \<Rightarrow> int \<Rightarrow> int option" where
  "cutoff_of w days =
     (if 999999999 < \<bar>days\<bar> then None
      else if datetime_min \<le> w_now w - days * 86400000000
              \<and> w_now w - days * 86400000000 \<le> datetime_max
      then Some (w_now w - days * 86400000000)
      else None)"

text \<open>The exception that leaves a query.\<close>

datatype exn = OverflowError

section \<open>Python values\<close>

text \<open>The truth value of a parsed JSON value.\<close>

fun truthy :: "json \<Rightarrow> bool" where
  "truthy JNull = False"
| "truthy (JBool b) = b"
| "truthy (JInt n) = (n \<noteq> 0)"
| "truthy (JStr s) = (s \<noteq> [])"
| "truthy (JArr xs) = (xs \<noteq> [])"
| "truthy (JObj kvs) = (kvs \<noteq> [])"

text \<open>\<^verbatim>\<open>d.get(key, default)\<close> on a \<^verbatim>\<open>dict\<close>, the keys of which are distinct.\<close>

definition get :: "(string \<times> json) list \<Rightarrow> string \<Rightarrow> json \<Rightarrow> json" where
  "get d key dflt = (case map_of d key of Some v \<Rightarrow> v | None \<Rightarrow> dflt)"

text \<open>
  \<^verbatim>\<open>sorted(xs, key=key, reverse=True)\<close> and \<^verbatim>\<open>xs.sort(key=key, reverse=True)\<close>: the list is
  reversed, sorted by a stable sort, and reversed again, so that equal keys keep their
  order.
\<close>

definition sort_desc :: "('a \<Rightarrow> 'k::linorder) \<Rightarrow> 'a list \<Rightarrow> 'a list" where
  "sort_desc key xs = rev (sort_key key (rev xs))"

text \<open>\<^verbatim>\<open>xs[:n]\<close>: a negative \<open>n\<close> counts from the end.\<close>

definition slice_to :: "'a list \<Rightarrow> int \<Rightarrow> 'a list" where
  "slice_to xs n = (if 0 \<le> n then take (nat n) xs else take (nat (int (length xs) + n)) xs)"

text \<open>
  \<^verbatim>\<open>sum\<close> over floats. With no summand it is the \<^verbatim>\<open>int\<close> 0 and with one summand it is
  that summand; how several are added depends on the version of Python (from left to
  right, or with a compensation term), and is a function of the environment.
\<close>

definition py_sum :: "(rat list \<Rightarrow> rat) \<Rightarrow> rat list \<Rightarrow> rat" where
  "py_sum fsum cs = (case cs of [] \<Rightarrow> 0 | [c] \<Rightarrow> c | _ \<Rightarrow> fsum cs)"

text \<open>\<^verbatim>\<open>max(xs, key=key)\<close> of a list that is not empty: the first of the largest.\<close>

definition max_by :: "('a \<Rightarrow> int) \<Rightarrow> 'a \<Rightarrow> 'a list \<Rightarrow> 'a" where
  "max_by key x xs = foldl (\<lambda>best y. if key best < key y then y else best) x xs"

section \<open>Accumulating usage records\<close>

text \<open>
  A bucket maps a model to its tally. Scanning a file goes from line to line; a step
  either goes on to the next line, or an exception ends the scan of the file, and the
  enclosing \<^verbatim>\<open>except Exception: continue\<close> goes on to the next file. The accumulators keep
  what was stored before the exception.
\<close>

type_synonym bucket = "(string \<times> usage) list"

datatype 'a step = Next 'a | Abort 'a

fun outcome :: "'a step \<Rightarrow> 'a" where
  "outcome (Next x) = x"
| "outcome (Abort x) = x"

definition zero_usage :: usage where
  "zero_usage =
     \<lparr>u_input = 0, u_output = 0, u_cacheRead = 0, u_cacheWrite = 0, u_estimatedCost = None\<rparr>"

text \<open>A bucket none of whose tallies has the key \<^verbatim>\<open>estimatedCost\<close>.\<close>

definition plain :: "bucket \<Rightarrow> bool" where
  "plain b \<longleftrightarrow> (\<forall>e \<in> set b. u_estimatedCost (snd e) = None)"

text \<open>\<^verbatim>\<open>if model not in bucket: bucket[model] = {'input': 0, ...}\<close>\<close>

definition ensure :: "string \<Rightarrow> bucket \<Rightarrow> bucket" where
  "ensure model b = (case map_of b model of None \<Rightarrow> b @ [(model, zero_usage)] | Some t \<Rightarrow> b)"

text \<open>
  The operand of \<^verbatim>\<open>+= usage.get(key, 0)\<close>: \<open>None\<close> when the statement raises, because
  \<^verbatim>\<open>usage\<close> is not a \<^verbatim>\<open>dict\<close> (\<^verbatim>\<open>AttributeError\<close>) or the value cannot be added to an
  \<^verbatim>\<open>int\<close> (\<^verbatim>\<open>TypeError\<close>). A \<^verbatim>\<open>bool\<close> is added as 0 or 1.
\<close>

definition counter :: "json \<Rightarrow> string \<Rightarrow> int option" where
  "counter usage key =
     (case usage of
        JObj d \<Rightarrow>
          (case get d key (JInt 0) of
             JInt n \<Rightarrow> Some n
           | JBool b \<Rightarrow> Some (if b then 1 else 0)
           | _ \<Rightarrow> None)
      | _ \<Rightarrow> None)"

text \<open>The four statements \<^verbatim>\<open>t['input'] += ...\<close> to \<^verbatim>\<open>t['cacheWrite'] += ...\<close> on one tally.\<close>

definition add_usage :: "json \<Rightarrow> usage \<Rightarrow> usage step" where
  "add_usage usage t0 =
     (case counter usage ''input_tokens'' of None \<Rightarrow> Abort t0 | Some a \<Rightarrow>
        let t1 = t0\<lparr>u_input := u_input t0 + a\<rparr> in
        (case counter usage ''output_tokens'' of None \<Rightarrow> Abort t1 | Some b \<Rightarrow>
           let t2 = t1\<lparr>u_output := u_output t1 + b\<rparr> in
           (case counter usage ''cache_read_input_tokens'' of None \<Rightarrow> Abort t2 | Some c \<Rightarrow>
              let t3 = t2\<lparr>u_cacheRead := u_cacheRead t2 + c\<rparr> in
              (case counter usage ''cache_creation_input_tokens'' of None \<Rightarrow> Abort t3 | Some d \<Rightarrow>
                 Next (t3\<lparr>u_cacheWrite := u_cacheWrite t3 + d\<rparr>)))))"

text \<open>The same on \<^verbatim>\<open>bucket[model]\<close>; a missing key would be a \<^verbatim>\<open>KeyError\<close>.\<close>

definition bump :: "json \<Rightarrow> string \<Rightarrow> bucket \<Rightarrow> bucket step" where
  "bump usage model b =
     (case map_of b model of
        None \<Rightarrow> Abort b
      | Some t \<Rightarrow>
          (case add_usage usage t of
             Next t' \<Rightarrow> Next (AList.update model t' b)
           | Abort t' \<Rightarrow> Abort (AList.update model t' b)))"

text \<open>\<^verbatim>\<open>(u['input'] + u['output']) > 0\<close>, the filter on the entries of a bucket.\<close>

definition nonzero :: "string \<times> usage \<Rightarrow> bool" where
  "nonzero e \<longleftrightarrow> 0 < u_input (snd e) + u_output (snd e)"

text \<open>\<^verbatim>\<open>entry.get('model') or msg.get('model', 'unknown')\<close>\<close>

definition record_model :: "(string \<times> json) list \<Rightarrow> (string \<times> json) list \<Rightarrow> json" where
  "record_model entry msg =
     (if truthy (get entry ''model'' JNull) then get entry ''model'' JNull
      else get msg ''model'' (JStr ''unknown''))"

section \<open>The usage aggregator\<close>

text \<open>
  \<^verbatim>\<open>ts and ts[:10] < cutoff_str\<close>: \<open>None\<close> when the slice or the comparison raises
  \<^verbatim>\<open>TypeError\<close>, which a time stamp that is true and not a string does.
\<close>

definition ts_before :: "json \<Rightarrow> string \<Rightarrow> bool option" where
  "ts_before ts cutoff_str =
     (if \<not> truthy ts then Some False
      else (case ts of JStr s \<Rightarrow> Some (take 10 s < cutoff_str) | _ \<Rightarrow> None))"

text \<open>
  \<^verbatim>\<open>ts[:10] if ts else session_day\<close>, where it is evaluated: a time stamp that is true is a
  string there.
\<close>

definition day_of :: "json \<Rightarrow> string \<Rightarrow> string" where
  "day_of ts session_day = (case ts of JStr s \<Rightarrow> if s \<noteq> [] then take 10 s else session_day | _ \<Rightarrow> session_day)"

text \<open>\<^verbatim>\<open>by_day.setdefault(day_str, {})\<close>\<close>

definition setdefault :: "string \<Rightarrow> (string \<times> bucket) list \<Rightarrow> (string \<times> bucket) list" where
  "setdefault day by_day = (case map_of by_day day of None \<Rightarrow> by_day @ [(day, [])] | Some b \<Rightarrow> by_day)"

text \<open>\<^verbatim>\<open>by_day[day_str]\<close>, after \<^verbatim>\<open>setdefault\<close> has made sure of the key.\<close>

definition get_bucket :: "(string \<times> bucket) list \<Rightarrow> string \<Rightarrow> bucket" where
  "get_bucket by_day day = (case map_of by_day day of None \<Rightarrow> [] | Some b \<Rightarrow> b)"

text \<open>
  The statements of the loop body from \<^verbatim>\<open>for bucket in (by_model, by_day.setdefault(...))\<close>
  on: both buckets get the model, then the four counters are added to \<^verbatim>\<open>by_model[model]\<close>
  and then to \<^verbatim>\<open>by_day[day_str][model]\<close>.
\<close>

definition record_usage ::
  "json \<Rightarrow> string \<Rightarrow> string \<Rightarrow> bucket \<times> (string \<times> bucket) list
     \<Rightarrow> (bucket \<times> (string \<times> bucket) list) step" where
  "record_usage usage model day_str st =
     (case st of (by_model0, by_day0) \<Rightarrow>
        let by_model1 = ensure model by_model0;
            by_day1 = setdefault day_str by_day0;
            by_day2 = AList.update day_str (ensure model (get_bucket by_day1 day_str)) by_day1
        in (case bump usage model by_model1 of
              Abort by_model2 \<Rightarrow> Abort (by_model2, by_day2)
            | Next by_model2 \<Rightarrow>
                (case bump usage model (get_bucket by_day2 day_str) of
                   Abort b \<Rightarrow> Abort (by_model2, AList.update day_str b by_day2)
                 | Next b \<Rightarrow> Next (by_model2, AList.update day_str b by_day2))))"

text \<open>
  One line of a session file in \<^verbatim>\<open>compute_usage\<close>. \<^verbatim>\<open>entry.get\<close> raises
  \<^verbatim>\<open>AttributeError\<close> when the line is valid JSON and not an object, and \<^verbatim>\<open>model.startswith\<close>
  when the model is not a string.
\<close>

definition usage_line ::
  "world \<Rightarrow> string \<Rightarrow> string \<Rightarrow> bucket \<times> (string \<times> bucket) list \<Rightarrow> string
     \<Rightarrow> (bucket \<times> (string \<times> bucket) list) step" where
  \<open>usage_line w cutoff_str session_day st line0 =
     (let line = strip line0 in
      if line = [] \<or> \<not> contains ''"usage"'' line then Next st
      else
        (case w_loads w line of
           None \<Rightarrow> Next st
         | Some (JObj entry) \<Rightarrow>
             (let ts = get entry ''timestamp'' (JStr []) in
              case ts_before ts cutoff_str of
                None \<Rightarrow> Abort st
              | Some True \<Rightarrow> Next st
              | Some False \<Rightarrow>
                  (case get entry ''message'' (JObj []) of
                     JObj msg \<Rightarrow>
                       (let usage = get msg ''usage'' JNull in
                        if \<not> truthy usage then Next st
                        else
                          (case record_model entry msg of
                             JStr model \<Rightarrow>
                               if prefix ''<'' model then Next st
                               else record_usage usage model (day_of ts session_day) st
                           | _ \<Rightarrow> Abort st))
                   | _ \<Rightarrow> Next st))
         | Some _ \<Rightarrow> Abort st))\<close>

text \<open>The loop \<^verbatim>\<open>for line in f\<close>, up to the end of the file or to an exception.\<close>

fun usage_lines ::
  "world \<Rightarrow> string \<Rightarrow> string \<Rightarrow> bucket \<times> (string \<times> bucket) list \<Rightarrow> string list
     \<Rightarrow> bucket \<times> (string \<times> bucket) list" where
  "usage_lines w cutoff_str session_day st [] = st"
| "usage_lines w cutoff_str session_day st (l # ls) =
     (case usage_line w cutoff_str session_day st l of
        Next st' \<Rightarrow> usage_lines w cutoff_str session_day st' ls
      | Abort st' \<Rightarrow> st')"

text \<open>
  One session file in \<^verbatim>\<open>compute_usage\<close>: a file modified before the cutoff is skipped,
  and so is one whose modification time is no \<^verbatim>\<open>datetime\<close>, by the exception; another one
  counts as a session of the day it was modified, and is scanned.
\<close>

type_synonym usage_state = "bucket \<times> (string \<times> bucket) list \<times> (string \<times> int) list"

definition usage_file :: "world \<Rightarrow> int \<Rightarrow> string \<Rightarrow> usage_state \<Rightarrow> session_file \<Rightarrow> usage_state" where
  "usage_file w cutoff cutoff_str st f =
     (case st of (by_model, by_day, sessions_by_day) \<Rightarrow>
        (case fromtimestamp w (f_mtime f) of
           None \<Rightarrow> st
         | Some t \<Rightarrow>
             if t < cutoff then st
             else
               let session_day = strftime_ymd t;
                   sessions_by_day' =
                     AList.update session_day
                       ((case map_of sessions_by_day session_day of None \<Rightarrow> 0 | Some n \<Rightarrow> n) + 1)
                       sessions_by_day
               in (case usage_lines w cutoff_str session_day (by_model, by_day) (f_lines f) of
                     (by_model', by_day') \<Rightarrow> (by_model', by_day', sessions_by_day'))))"

text \<open>The loop over the projects: an entry that is not a directory is skipped.\<close>

definition usage_project :: "world \<Rightarrow> int \<Rightarrow> string \<Rightarrow> usage_state \<Rightarrow> project \<Rightarrow> usage_state" where
  "usage_project w cutoff cutoff_str st p =
     (if p_isdir p then foldl (usage_file w cutoff cutoff_str) st (p_files p) else st)"

definition usage_scan :: "world \<Rightarrow> int \<Rightarrow> string \<Rightarrow> project list \<Rightarrow> usage_state" where
  "usage_scan w cutoff cutoff_str listing =
     foldl (usage_project w cutoff cutoff_str) ([], [], []) listing"

text \<open>The result of \<^verbatim>\<open>compute_usage\<close>: a day of \<^verbatim>\<open>byDay\<close>, and the whole result.\<close>

record day_bucket =
  d_date :: string
  d_models :: bucket
  d_sessions :: int

record usage_result =
  uo_byModel :: bucket
  uo_byDay :: "day_bucket list"
  uo_totalEstimatedCost :: rat
  uo_totalSessions :: int
  uo_days :: int

text \<open>
  What follows the scan: the filter on \<^verbatim>\<open>by_model\<close>, the cost of each model that is left
  (\<open>estimated\<close> is the value stored under \<^verbatim>\<open>estimatedCost\<close> and summed for the total), and
  the list of days; the comprehension keeps a day \<^verbatim>\<open>if models\<close>, where \<^verbatim>\<open>models\<close> is the
  bucket of the day before its own filter.
\<close>

definition estimated :: "string \<times> usage \<Rightarrow> rat" where
  "estimated e = py_round (cost (fst e) (snd e)) 4"

definition with_cost :: "string \<times> usage \<Rightarrow> string \<times> usage" where
  "with_cost e = (fst e, (snd e)\<lparr>u_estimatedCost := Some (estimated e)\<rparr>)"

definition by_day_list :: "(string \<times> bucket) list \<Rightarrow> (string \<times> int) list \<Rightarrow> day_bucket list" where
  "by_day_list by_day sessions_by_day =
     sort_desc d_date
       (map (\<lambda>(d, models).
               \<lparr>d_date = d, d_models = filter nonzero models,
                d_sessions = (case map_of sessions_by_day d of None \<Rightarrow> 0 | Some n \<Rightarrow> n)\<rparr>)
          (filter (\<lambda>(d, models). models \<noteq> []) by_day))"

text \<open>
  \<^verbatim>\<open>compute_usage(days)\<close> from the scan on, for a log tree that exists and a cutoff that
  has been computed. The tallies are taken to be below \<open>2 ^ 1000\<close>, so that \<^verbatim>\<open>_cost\<close>
  returns a finite float.
\<close>

definition usage_report :: "world \<Rightarrow> project list \<Rightarrow> int \<Rightarrow> int \<Rightarrow> usage_result" where
  "usage_report w listing cutoff days =
     (let cutoff_str = strftime_ymd cutoff
      in case usage_scan w cutoff cutoff_str listing of
           (by_model0, by_day, sessions_by_day) \<Rightarrow>
             let by_model = filter nonzero by_model0
             in \<lparr>uo_byModel = map with_cost by_model,
                 uo_byDay = by_day_list by_day sessions_by_day,
                 uo_totalEstimatedCost =
                   py_round (py_sum (w_fsum w) (map estimated by_model)) 2,
                 uo_totalSessions = sum_list (map snd sessions_by_day),
                 uo_days = days\<rparr>)"

text \<open>
  \<^verbatim>\<open>compute_usage(days)\<close> on a log tree: the empty result when the root is no directory;
  otherwise the cutoff is computed, which raises \<^verbatim>\<open>OverflowError\<close> when it is no
  \<^verbatim>\<open>datetime\<close>.
\<close>

definition compute_usage :: "world \<Rightarrow> tree \<Rightarrow> int \<Rightarrow> exn + usage_result" where
  "compute_usage w claude_dir days =
     (case claude_dir of
        None \<Rightarrow>
          Inr \<lparr>uo_byModel = [], uo_byDay = [], uo_totalEstimatedCost = 0, uo_totalSessions = 0,
               uo_days = days\<rparr>
      | Some listing \<Rightarrow>
          (case cutoff_of w days of
             None \<Rightarrow> Inl OverflowError
           | Some cutoff \<Rightarrow> Inr (usage_report w listing cutoff days)))"

section \<open>The session summarizer\<close>

text \<open>The locals of the scan of one file: \<^verbatim>\<open>by_model\<close>, \<^verbatim>\<open>first_ts\<close>, \<^verbatim>\<open>last_ts\<close>, \<^verbatim>\<open>msg_count\<close>.\<close>

record scan =
  sc_by_model :: bucket
  sc_first_ts :: json
  sc_last_ts :: json
  sc_msg_count :: int

text \<open>
  One line of a session file in \<^verbatim>\<open>compute_sessions\<close>; \<open>None\<close> when an exception ends the
  scan, after which the file gives no row. A line that is parsed has one of the three
  markers, so that the first use of \<^verbatim>\<open>entry\<close> is an \<^verbatim>\<open>entry.get\<close>, which raises unless
  \<^verbatim>\<open>entry\<close> is an object.
\<close>

definition session_line :: "world \<Rightarrow> scan \<Rightarrow> string \<Rightarrow> scan option" where
  \<open>session_line w st line =
     (if strip line = [] then Some st
      else
        let has_ts = contains ''"timestamp"'' line;
            has_usage = contains ''"usage"'' line;
            has_type = contains ''"type"'' line
        in if \<not> has_ts \<and> \<not> has_usage \<and> \<not> has_type then Some st
           else
             (case w_loads w line of
                None \<Rightarrow> Some st
              | Some (JObj entry) \<Rightarrow>
                  (let ts = get entry ''timestamp'' (JStr []);
                       st1 = (if has_ts \<and> truthy ts
                              then st\<lparr>sc_first_ts :=
                                        (if \<not> truthy (sc_first_ts st) then ts else sc_first_ts st),
                                      sc_last_ts := ts\<rparr>
                              else st);
                       st2 = (if has_type
                                \<and> (get entry ''type'' JNull = JStr ''user''
                                   \<or> get entry ''type'' JNull = JStr ''assistant'')
                              then st1\<lparr>sc_msg_count := sc_msg_count st1 + 1\<rparr>
                              else st1)
                   in if \<not> has_usage then Some st2
                      else
                        (case get entry ''message'' (JObj []) of
                           JObj msg \<Rightarrow>
                             (let usage = get msg ''usage'' JNull in
                              if \<not> truthy usage then Some st2
                              else
                                (case record_model entry msg of
                                   JStr model \<Rightarrow>
                                     if prefix ''<'' model then Some st2
                                     else
                                       (case bump usage model (ensure model (sc_by_model st2)) of
                                          Next b \<Rightarrow> Some (st2\<lparr>sc_by_model := b\<rparr>)
                                        | Abort b \<Rightarrow> None)
                                 | _ \<Rightarrow> None))
                         | _ \<Rightarrow> Some st2))
              | Some _ \<Rightarrow> None))\<close>

fun session_lines :: "world \<Rightarrow> scan \<Rightarrow> string list \<Rightarrow> scan option" where
  "session_lines w st [] = Some st"
| "session_lines w st (l # ls) =
     (case session_line w st l of
        Some st' \<Rightarrow> session_lines w st' ls
      | None \<Rightarrow> None)"

text \<open>A row of the result. The date is a slice of a time stamp: a string, or a list.\<close>

record session_row =
  s_sessionId :: string
  s_project :: string
  s_date :: json
  s_primaryModel :: string
  s_totalInput :: int
  s_totalOutput :: int
  s_msgCount :: int
  s_estimatedCost :: rat
  s_mtime :: rat

text \<open>\<^verbatim>\<open>v[:10]\<close>: \<open>None\<close> for the \<^verbatim>\<open>TypeError\<close> of a value that has no slices.\<close>

definition slice10 :: "json \<Rightarrow> json option" where
  "slice10 v =
     (case v of JStr s \<Rightarrow> Some (JStr (take 10 s)) | JArr xs \<Rightarrow> Some (JArr (take 10 xs)) | _ \<Rightarrow> None)"

text \<open>
  One session file in \<^verbatim>\<open>compute_sessions\<close>: the row it appends, or \<open>None\<close> when it is
  skipped, by either \<^verbatim>\<open>continue\<close> or by an exception. The tallies are taken to be below
  \<open>2 ^ 1000\<close>, so that \<^verbatim>\<open>_cost\<close> returns a finite float.
\<close>

definition session_file :: "world \<Rightarrow> int \<Rightarrow> string \<Rightarrow> session_file \<Rightarrow> session_row option" where
  "session_file w cutoff project_display f =
     (case fromtimestamp w (f_mtime f) of
        None \<Rightarrow> None
      | Some t \<Rightarrow>
          if t < cutoff then None
          else
            let session_id = replace ''.jsonl'' [] (basename (f_path f)) in
            (case session_lines w
                    \<lparr>sc_by_model = [], sc_first_ts = JNull, sc_last_ts = JNull, sc_msg_count = 0\<rparr>
                    (f_lines f) of
               None \<Rightarrow> None
             | Some st \<Rightarrow>
                 (case filter nonzero (sc_by_model st) of
                    [] \<Rightarrow> None
                  | e # es \<Rightarrow>
                      let by_model = e # es;
                          total_cost = py_sum (w_fsum w) (map (\<lambda>e. cost (fst e) (snd e)) by_model);
                          total_input = sum_list (map (\<lambda>e. u_input (snd e)) by_model);
                          total_output = sum_list (map (\<lambda>e. u_output (snd e)) by_model);
                          primary_model =
                            fst (max_by (\<lambda>e. u_input (snd e) + u_output (snd e)) e es)
                      in (case slice10
                                 (if truthy (sc_last_ts st) then sc_last_ts st
                                  else if truthy (sc_first_ts st) then sc_first_ts st
                                  else JStr (isoformat t)) of
                            None \<Rightarrow> None
                          | Some date \<Rightarrow>
                              Some \<lparr>s_sessionId = session_id, s_project = project_display,
                                    s_date = date, s_primaryModel = primary_model,
                                    s_totalInput = total_input, s_totalOutput = total_output,
                                    s_msgCount = sc_msg_count st,
                                    s_estimatedCost = py_round total_cost 4,
                                    s_mtime = f_mtime f\<rparr>))))"

text \<open>The rows in the order in which the two loops append them.\<close>

definition session_rows :: "world \<Rightarrow> int \<Rightarrow> project list \<Rightarrow> session_row list" where
  "session_rows w cutoff listing =
     concat (map (\<lambda>p. if p_isdir p
                       then List.map_filter
                              (session_file w cutoff (decode_project_folder w (p_folder p)))
                              (p_files p)
                       else [])
               listing)"

record sessions_result =
  so_sessions :: "session_row list"
  so_total :: int
  so_days :: int

text \<open>
  \<^verbatim>\<open>compute_sessions(days, limit)\<close> from the scan on, and on a log tree; the cutoff is
  computed as in \<^verbatim>\<open>compute_usage\<close>.
\<close>

definition sessions_report :: "world \<Rightarrow> project list \<Rightarrow> int \<Rightarrow> int \<Rightarrow> int \<Rightarrow> sessions_result" where
  "sessions_report w listing cutoff days limit =
     (let sessions = sort_desc s_mtime (session_rows w cutoff listing)
      in \<lparr>so_sessions = slice_to sessions limit, so_total = int (length sessions),
          so_days = days\<rparr>)"

definition compute_sessions :: "world \<Rightarrow> tree \<Rightarrow> int \<Rightarrow> int \<Rightarrow> exn + sessions_result" where
  "compute_sessions w claude_dir days limit =
     (case claude_dir of
        None \<Rightarrow> Inr \<lparr>so_sessions = [], so_total = 0, so_days = days\<rparr>
      | Some listing \<Rightarrow>
          (case cutoff_of w days of
             None \<Rightarrow> Inl OverflowError
           | Some cutoff \<Rightarrow> Inr (sessions_report w listing cutoff days limit)))"

section \<open>Example log trees\<close>

text \<open>
  The examples are log trees of one project with one session file of one line, modified
  an hour before now, which is 2026-11-04 12:00.
\<close>

definition file_of :: "rat \<Rightarrow> string \<Rightarrow> session_file" where
  "file_of mtime l =
     \<lparr>f_path = ''/home/u/.claude/projects/-home-u-proj/abc.jsonl'', f_mtime = mtime,
      f_lines = [l @ [CHR 10]]\<rparr>"

definition project_of :: "session_file list \<Rightarrow> project" where
  "project_of fs = \<lparr>p_folder = ''-home-u-proj'', p_isdir = True, p_files = fs\<rparr>"

definition tree_of :: "string \<Rightarrow> tree" where
  "tree_of l = Some [project_of [file_of 1793790000 l]]"

text \<open>A record of the year 2020.\<close>

definition old_line :: string where
  \<open>old_line = ''{"timestamp":"2020-01-01T00:00:00Z","message":{"model":"m","usage":{"input_tokens":10,"output_tokens":5}}}''\<close>

definition old_json :: json where
  "old_json =
     JObj [(''timestamp'', JStr ''2020-01-01T00:00:00Z''),
           (''message'', JObj [(''model'', JStr ''m''),
              (''usage'', JObj [(''input_tokens'', JInt 10), (''output_tokens'', JInt 5)])])]"

text \<open>A record of today with cache reads and neither input nor output tokens.\<close>

definition cache_line :: string where
  \<open>cache_line = ''{"timestamp":"2026-11-04T10:00:00Z","message":{"model":"m","usage":{"input_tokens":0,"output_tokens":0,"cache_read_input_tokens":7}}}''\<close>

definition cache_json :: json where
  "cache_json =
     JObj [(''timestamp'', JStr ''2026-11-04T10:00:00Z''),
           (''message'', JObj [(''model'', JStr ''m''),
              (''usage'', JObj [(''input_tokens'', JInt 0), (''output_tokens'', JInt 0),
                                (''cache_read_input_tokens'', JInt 7)])])]"

text \<open>A record of today with a model at the top and another one in the message.\<close>

definition both_line :: string where
  \<open>both_line = ''{"timestamp":"2026-11-04T10:00:00Z","model":"claude-sonnet-4-6","message":{"model":"other","usage":{"input_tokens":100000,"output_tokens":50000,"cache_read_input_tokens":10000,"cache_creation_input_tokens":5000}}}''\<close>

definition both_json :: json where
  "both_json =
     JObj [(''timestamp'', JStr ''2026-11-04T10:00:00Z''),
           (''model'', JStr ''claude-sonnet-4-6''),
           (''message'', JObj [(''model'', JStr ''other''),
              (''usage'', JObj [(''input_tokens'', JInt 100000), (''output_tokens'', JInt 50000),
                                (''cache_read_input_tokens'', JInt 10000),
                                (''cache_creation_input_tokens'', JInt 5000)])])]"

text \<open>Records with a model in the message only, and with no model at all.\<close>

definition message_line :: string where
  \<open>message_line = ''{"message":{"model":"glm-4.7","usage":{"input_tokens":3,"output_tokens":2}}}''\<close>

definition message_json :: json where
  "message_json =
     JObj [(''message'', JObj [(''model'', JStr ''glm-4.7''),
              (''usage'', JObj [(''input_tokens'', JInt 3), (''output_tokens'', JInt 2)])])]"

definition bare_line :: string where
  \<open>bare_line = ''{"message":{"usage":{"input_tokens":3,"output_tokens":2}}}''\<close>

definition bare_json :: json where
  "bare_json =
     JObj [(''message'', JObj
              [(''usage'', JObj [(''input_tokens'', JInt 3), (''output_tokens'', JInt 2)])])]"

text \<open>
  The environment of the examples: it is 2026-11-04 12:00 local time, local time is UTC,
  the home directory is \<^verbatim>\<open>/home/u\<close> and no path under it exists, and \<^verbatim>\<open>json.loads\<close> is the
  table of the lines above, which ignores white space around a line.
\<close>

definition demo :: world where
  "demo =
     \<lparr>w_now = 1793793600000000, w_utcoffset = 0, w_home = ''/home/u'',
      w_exists = (\<lambda>p. False), w_relpath = (\<lambda>p start. p),
      w_loads = (\<lambda>s. map_of [(old_line, old_json), (cache_line, cache_json),
                                (both_line, both_json), (message_line, message_json),
                                (bare_line, bare_json)] (strip s)),
      w_fsum = foldl fadd 0\<rparr>"

chapter \<open>Properties\<close>

section \<open>Rounding\<close>

lemma two_powi_pos [simp]: "(0::rat) < 2 powi e"
  by (simp add: power_int_def)

lemma two_powi_nat: "0 \<le> k \<Longrightarrow> (2::rat) ^ nat k = 2 powi k"
  by (simp add: power_int_def)

lemma bitlen_rat_bounds:
  assumes "0 < p"
  shows "2 powi (bitlen p - 1) \<le> (of_int p :: rat)" and "(of_int p :: rat) < 2 powi bitlen p"
proof -
  have b: "1 \<le> bitlen p"
    using assms bitlen_eq_zero_iff [of p] bitlen_nonneg [of p] by linarith
  from bitlen_bounds [OF assms]
  have lo: "2 ^ nat (bitlen p - 1) \<le> p" and hi: "p < 2 ^ nat (bitlen p)" by simp_all
  have "(of_int (2 ^ nat (bitlen p - 1)) :: rat) \<le> of_int p"
    using lo by (simp only: of_int_le_iff)
  then show "2 powi (bitlen p - 1) \<le> (of_int p :: rat)"
    using b by (simp add: power_int_def)
  have "(of_int p :: rat) < of_int (2 ^ nat (bitlen p))"
    using hi by (simp only: of_int_less_iff)
  then show "(of_int p :: rat) < 2 powi bitlen p"
    using b by (simp add: power_int_def)
qed

lemma binade_bounds:
  assumes "x \<noteq> 0"
  shows "2 powi binade x \<le> \<bar>x\<bar>" and "\<bar>x\<bar> < 2 powi (binade x + 1)"
proof -
  obtain p q where pq: "quotient_of \<bar>x\<bar> = (p, q)"
    by (cases "quotient_of \<bar>x\<bar>")
  have q: "0 < q" by (rule quotient_of_denom_pos [OF pq])
  have x: "\<bar>x\<bar> = of_int p / of_int q" by (rule quotient_of_div [OF pq])
  have "0 < \<bar>x\<bar>" using assms by simp
  then have p: "0 < p"
    using q unfolding x by (simp add: zero_less_divide_iff)
  define d where "d = bitlen p - bitlen q"
  note bp = bitlen_rat_bounds [OF p] and bq = bitlen_rat_bounds [OF q]
  have qpos: "(0::rat) < of_int q" using q by simp
  have "\<bar>x\<bar> < 2 powi bitlen p / of_int q"
    unfolding x using bp(2) qpos by (simp add: divide_strict_right_mono)
  also have "\<dots> \<le> 2 powi bitlen p / 2 powi (bitlen q - 1)"
    using bq(1) by (simp add: frac_le)
  also have "\<dots> = 2 powi (bitlen p - (bitlen q - 1))"
    by (rule power_int_diff [symmetric]) simp
  also have "\<dots> = 2 powi (d + 1)"
    by (simp add: d_def algebra_simps)
  finally have up: "\<bar>x\<bar> < 2 powi (d + 1)" .
  have "(2::rat) powi (d - 1) = 2 powi ((bitlen p - 1) - bitlen q)"
    by (simp add: d_def algebra_simps)
  also have "\<dots> = 2 powi (bitlen p - 1) / 2 powi bitlen q"
    by (rule power_int_diff) simp
  also have "\<dots> \<le> of_int p / 2 powi bitlen q"
    using bp(1) by (simp add: divide_right_mono)
  also have "\<dots> \<le> of_int p / of_int q"
    using bq(2) p qpos by (simp add: frac_le)
  finally have lo: "2 powi (d - 1) \<le> \<bar>x\<bar>" unfolding x .
  have e: "binade x = (if 2 powi d \<le> \<bar>x\<bar> then d else d - 1)"
    by (simp add: binade_def pq d_def Let_def)
  show "2 powi binade x \<le> \<bar>x\<bar>"
    using lo by (simp add: e)
  show "\<bar>x\<bar> < 2 powi (binade x + 1)"
    using up by (auto simp add: e not_le)
qed


lemma round_half_even_of_int [simp]: "round_half_even (of_int n) = n"
  by (simp add: round_half_even_def)

lemma round_half_even_mono:
  assumes "r \<le> s"
  shows "round_half_even r \<le> round_half_even s"
proof (cases "\<lfloor>r\<rfloor> = \<lfloor>s\<rfloor>")
  case True
  then show ?thesis
    using assms unfolding round_half_even_def Let_def by auto
next
  case False
  then have "\<lfloor>r\<rfloor> + 1 \<le> \<lfloor>s\<rfloor>"
    using floor_mono [OF assms] by linarith
  moreover have "round_half_even r \<le> \<lfloor>r\<rfloor> + 1"
    unfolding round_half_even_def Let_def by auto
  moreover have "\<lfloor>s\<rfloor> \<le> round_half_even s"
    unfolding round_half_even_def Let_def by auto
  ultimately show ?thesis by linarith
qed

lemma fl_zero [simp]: "fl 0 = 0"
  by (simp add: fl_def)

lemma fl_scaled:
  assumes "0 < x"
  shows "2 powi 52 \<le> x / 2 powi (binade x - 52)" and "x / 2 powi (binade x - 52) < 2 powi 53"
proof -
  have x: "x \<noteq> 0" "\<bar>x\<bar> = x" using assms by simp_all
  have u: "(2::rat) powi (binade x - 52) = 2 powi binade x / 2 powi 52"
    by (rule power_int_diff) simp
  have v: "(2::rat) powi (binade x + 1) = 2 powi binade x * 2"
    by (simp add: power_int_add)
  from binade_bounds [OF x(1)] have lo: "2 powi binade x \<le> x" and hi: "x < 2 powi binade x * 2"
    by (simp_all add: x(2) v)
  have pos: "(0::rat) < 2 powi binade x" by simp
  show "2 powi 52 \<le> x / 2 powi (binade x - 52)"
    unfolding u using lo pos by (simp add: field_simps)
  show "x / 2 powi (binade x - 52) < 2 powi 53"
    unfolding u using hi pos by (simp add: field_simps)
qed

lemma fl_pos_eq:
  "0 < x \<Longrightarrow> fl x = of_int (round_half_even (x / 2 powi (binade x - 52))) * 2 powi (binade x - 52)"
  by (simp add: fl_def Let_def)

lemma fl_binade_lower:
  assumes "0 < x"
  shows "2 powi binade x \<le> fl x"
proof -
  let ?u = "(2::rat) powi (binade x - 52)"
  have "round_half_even (of_int (2 ^ 52)) \<le> round_half_even (x / ?u)"
    using fl_scaled(1) [OF assms] by (intro round_half_even_mono) simp
  then have "(2::int) ^ 52 \<le> round_half_even (x / ?u)"
    by (simp only: round_half_even_of_int)
  then have "(of_int (2 ^ 52) :: rat) \<le> of_int (round_half_even (x / ?u))"
    by (simp only: of_int_le_iff)
  then have le: "2 powi 52 * ?u \<le> of_int (round_half_even (x / ?u)) * ?u"
    by (intro mult_right_mono) simp_all
  have "(2::rat) powi binade x = 2 powi (52 + (binade x - 52))" by simp
  also have "\<dots> = 2 powi 52 * ?u"
    by (rule power_int_add) simp
  also note le
  also have "of_int (round_half_even (x / ?u)) * ?u = fl x"
    by (simp only: fl_pos_eq [OF assms])
  finally show ?thesis .
qed

lemma fl_binade_upper:
  assumes "0 < x"
  shows "fl x \<le> 2 powi (binade x + 1)"
proof -
  let ?u = "(2::rat) powi (binade x - 52)"
  have "round_half_even (x / ?u) \<le> round_half_even (of_int (2 ^ 53))"
    using fl_scaled(2) [OF assms] by (intro round_half_even_mono) simp
  then have "round_half_even (x / ?u) \<le> (2::int) ^ 53"
    by (simp only: round_half_even_of_int)
  then have "(of_int (round_half_even (x / ?u)) :: rat) \<le> of_int (2 ^ 53)"
    by (simp only: of_int_le_iff)
  then have le: "of_int (round_half_even (x / ?u)) * ?u \<le> 2 powi 53 * ?u"
    by (intro mult_right_mono) simp_all
  have "fl x = of_int (round_half_even (x / ?u)) * ?u"
    by (simp only: fl_pos_eq [OF assms])
  also note le
  also have "2 powi 53 * ?u = 2 powi (53 + (binade x - 52))"
    by (rule power_int_add [symmetric]) simp
  also have "\<dots> = 2 powi (binade x + 1)" by (simp add: algebra_simps)
  finally show ?thesis .
qed

lemma fl_nonneg: "0 \<le> x \<Longrightarrow> 0 \<le> fl x"
proof (cases "x = 0")
  case False
  assume "0 \<le> x"
  with False have "0 < x" by simp
  from fl_binade_lower [OF this] have "2 powi binade x \<le> fl x" .
  moreover have "(0::rat) < 2 powi binade x" by simp
  ultimately show ?thesis by linarith
qed simp

lemma binade_mono:
  assumes "0 < x" "x \<le> y"
  shows "binade x \<le> binade y"
proof (rule ccontr)
  assume "\<not> binade x \<le> binade y"
  then have "binade y + 1 \<le> binade x" by simp
  then have "(2::rat) powi (binade y + 1) \<le> 2 powi binade x"
    by (intro power_int_increasing) simp_all
  moreover have "2 powi binade x \<le> x" "y < 2 powi (binade y + 1)"
    using binade_bounds [of x] binade_bounds [of y] assms by simp_all
  ultimately show False using assms by linarith
qed

lemma fl_mono:
  assumes "0 \<le> x" "x \<le> y"
  shows "fl x \<le> fl y"
proof (cases "x = 0")
  case True
  then show ?thesis using assms fl_nonneg [of y] by simp
next
  case False
  then have x: "0 < x" and y: "0 < y" using assms by simp_all
  show ?thesis
  proof (cases "binade x = binade y")
    case True
    let ?u = "(2::rat) powi (binade y - 52)"
    have "x / ?u \<le> y / ?u"
      using assms by (simp add: divide_right_mono)
    then have "round_half_even (x / ?u) \<le> round_half_even (y / ?u)"
      by (rule round_half_even_mono)
    then have "(of_int (round_half_even (x / ?u)) :: rat) \<le> of_int (round_half_even (y / ?u))"
      by (simp only: of_int_le_iff)
    then have "of_int (round_half_even (x / ?u)) * ?u \<le> of_int (round_half_even (y / ?u)) * ?u"
      by (intro mult_right_mono) simp_all
    then show ?thesis
      by (simp add: fl_pos_eq [OF x] fl_pos_eq [OF y] True)
  next
    case False
    with binade_mono [OF x assms(2)] have "binade x + 1 \<le> binade y" by simp
    then have "(2::rat) powi (binade x + 1) \<le> 2 powi binade y"
      by (intro power_int_increasing) simp_all
    with fl_binade_upper [OF x] fl_binade_lower [OF y] show ?thesis by linarith
  qed
qed












section \<open>The cost calculator\<close>

lemma per_million_nonneg: "0 \<le> n \<Longrightarrow> 0 \<le> r \<Longrightarrow> 0 \<le> per_million n r"
  by (simp add: per_million_def fdiv_def fmul_def float_of_int_def fl_nonneg)

lemma per_million_zero [simp]: "per_million 0 r = 0"
  by (simp add: per_million_def fdiv_def fmul_def float_of_int_def)

lemma per_million_mono:
  assumes "0 \<le> n" "n \<le> n'" "0 \<le> r"
  shows "per_million n r \<le> per_million n' r"
proof -
  have 1: "float_of_int n \<le> float_of_int n'" and 0: "0 \<le> float_of_int n"
    using assms by (simp_all add: float_of_int_def fl_mono fl_nonneg)
  have 2: "fmul (float_of_int n) r \<le> fmul (float_of_int n') r" and 3: "0 \<le> fmul (float_of_int n) r"
    unfolding fmul_def using 0 1 assms(3) by (simp_all add: fl_mono fl_nonneg mult_right_mono)
  show ?thesis
    unfolding per_million_def fdiv_def using 2 3 by (simp add: fl_mono divide_right_mono)
qed


lemma fadd_nonneg: "0 \<le> a \<Longrightarrow> 0 \<le> b \<Longrightarrow> 0 \<le> fadd a b"
  by (simp add: fadd_def fl_nonneg)

lemma fadd_mono: "0 \<le> a \<Longrightarrow> 0 \<le> b \<Longrightarrow> a \<le> a' \<Longrightarrow> b \<le> b' \<Longrightarrow> fadd a b \<le> fadd a' b'"
  by (simp add: fadd_def fl_mono add_mono)


lemma rate_card_nonneg:
  assumes "0 \<le> i" "0 \<le> out" "0 \<le> cr" "0 \<le> cw"
  shows "0 \<le> r_input (rate_card i out cr cw) \<and> 0 \<le> r_output (rate_card i out cr cw)
       \<and> 0 \<le> r_cacheRead (rate_card i out cr cw) \<and> 0 \<le> r_cacheWrite (rate_card i out cr cw)"
  using assms by (simp add: rate_card_def fl_nonneg)

lemma MODEL_PRICING_nonneg:
  "\<forall>p \<in> set MODEL_PRICING. 0 \<le> r_input (snd p) \<and> 0 \<le> r_output (snd p)
       \<and> 0 \<le> r_cacheRead (snd p) \<and> 0 \<le> r_cacheWrite (snd p)"
  by (simp add: MODEL_PRICING_def rate_card_nonneg)

lemma pricing_get_nonneg:
  "0 \<le> r_input (pricing_get m) \<and> 0 \<le> r_output (pricing_get m)
   \<and> 0 \<le> r_cacheRead (pricing_get m) \<and> 0 \<le> r_cacheWrite (pricing_get m)"
proof (cases "map_of MODEL_PRICING m")
  case None
  then show ?thesis
    using rate_card_nonneg [of 1 5 "10 / 100" 1] by (simp add: pricing_get_def DEFAULT_PRICING_def)
next
  case (Some r)
  then have "(m, r) \<in> set MODEL_PRICING" by (rule map_of_SomeD)
  with MODEL_PRICING_nonneg have "0 \<le> r_input r \<and> 0 \<le> r_output r
       \<and> 0 \<le> r_cacheRead r \<and> 0 \<le> r_cacheWrite r" by fastforce
  then show ?thesis
    using Some by (simp add: pricing_get_def)
qed

lemma net_input_nonneg [simp]: "0 \<le> net_input u"
  by (simp add: net_input_def)

lemma pricing_sonnet: "pricing_get ''claude-sonnet-4-6'' = rate_card 3 15 (30 / 100) (375 / 100)"
  by (simp add: pricing_get_def MODEL_PRICING_def)

lemma pricing_unlisted: "pricing_get ''unknown'' = rate_card 1 5 (10 / 100) 1"
  by (simp add: pricing_get_def MODEL_PRICING_def DEFAULT_PRICING_def)





text \<open>
  Claim C2, as stated: the cost is non-decreasing in each of the four counters. It is
  not: a cache-read token is taken out of the net input, which is billed at the higher
  input rate, so the cost falls; and where a cache-write token costs as much as an input
  token, the rounding of the two summands can make the cost fall as well.
\<close>

theorem cost_not_monotone:
  "cost ''claude-sonnet-4-6''
       \<lparr>u_input = 100, u_output = 0, u_cacheRead = 1, u_cacheWrite = 0, u_estimatedCost = None\<rparr>
     < cost ''claude-sonnet-4-6''
       \<lparr>u_input = 100, u_output = 0, u_cacheRead = 0, u_cacheWrite = 0, u_estimatedCost = None\<rparr>
   \<and> cost ''unknown''
       \<lparr>u_input = 5, u_output = 0, u_cacheRead = 0, u_cacheWrite = 1, u_estimatedCost = None\<rparr>
     < cost ''unknown''
       \<lparr>u_input = 5, u_output = 0, u_cacheRead = 0, u_cacheWrite = 0, u_estimatedCost = None\<rparr>"
  unfolding cost_def pricing_sonnet pricing_unlisted Let_def net_input_def rate_card_def
  by simp code_simp

text \<open>
  Claim C2, amended: for non-negative counters the cost is non-decreasing in the input
  counter and in the output counter; it is non-decreasing in the cache-read counter and
  in the cache-write counter where the net input is already clamped to zero
  (\<open>input \<le> cacheRead + cacheWrite\<close>).
\<close>

theorem cost_monotone:
  assumes "0 \<le> u_input u" "0 \<le> u_output u" "0 \<le> u_cacheRead u" "0 \<le> u_cacheWrite u"
  shows "(u_input u \<le> i \<longrightarrow> cost model u \<le> cost model (u\<lparr>u_input := i\<rparr>))
       \<and> (u_output u \<le> out \<longrightarrow> cost model u \<le> cost model (u\<lparr>u_output := out\<rparr>))
       \<and> (u_input u \<le> u_cacheRead u + u_cacheWrite u \<longrightarrow>
            (u_cacheRead u \<le> cr \<longrightarrow> cost model u \<le> cost model (u\<lparr>u_cacheRead := cr\<rparr>))
          \<and> (u_cacheWrite u \<le> cw \<longrightarrow> cost model u \<le> cost model (u\<lparr>u_cacheWrite := cw\<rparr>)))"
proof -
  note r = pricing_get_nonneg [of model]
  let ?r = "pricing_get model"
  have n: "0 \<le> per_million (net_input u) (r_input ?r)"
    and out: "0 \<le> per_million (u_output u) (r_output ?r)"
    and cr: "0 \<le> per_million (u_cacheRead u) (r_cacheRead ?r)"
    and cw: "0 \<le> per_million (u_cacheWrite u) (r_cacheWrite ?r)"
    using r assms by (simp_all add: per_million_nonneg)
  have 1: "cost model u \<le> cost model (u\<lparr>u_input := i\<rparr>)" if "u_input u \<le> i"
  proof -
    have "net_input u \<le> net_input (u\<lparr>u_input := i\<rparr>)"
      using that by (simp add: net_input_def)
    then have "per_million (net_input u) (r_input ?r)
        \<le> per_million (net_input (u\<lparr>u_input := i\<rparr>)) (r_input ?r)"
      using r by (intro per_million_mono) simp_all
    then show ?thesis
      unfolding cost_def Let_def using n out cr cw
      by (intro fadd_mono fadd_nonneg) simp_all
  qed
  have 2: "cost model u \<le> cost model (u\<lparr>u_output := out\<rparr>)" if "u_output u \<le> out"
  proof -
    have "per_million (u_output u) (r_output ?r) \<le> per_million out (r_output ?r)"
      using r assms that by (intro per_million_mono) simp_all
    then show ?thesis
      unfolding cost_def Let_def using n out cr cw
      by (intro fadd_mono fadd_nonneg) (simp_all add: net_input_def)
  qed
  have 3: "cost model u \<le> cost model (u\<lparr>u_cacheRead := c\<rparr>)"
    if "u_input u \<le> u_cacheRead u + u_cacheWrite u" "u_cacheRead u \<le> c" for c
  proof -
    have "net_input u = 0" "net_input (u\<lparr>u_cacheRead := c\<rparr>) = 0"
      using that by (simp_all add: net_input_def)
    moreover have "per_million (u_cacheRead u) (r_cacheRead ?r) \<le> per_million c (r_cacheRead ?r)"
      using r assms that by (intro per_million_mono) simp_all
    ultimately show ?thesis
      unfolding cost_def Let_def using out cr cw
      by (intro fadd_mono fadd_nonneg) simp_all
  qed
  have 4: "cost model u \<le> cost model (u\<lparr>u_cacheWrite := c\<rparr>)"
    if "u_input u \<le> u_cacheRead u + u_cacheWrite u" "u_cacheWrite u \<le> c" for c
  proof -
    have "net_input u = 0" "net_input (u\<lparr>u_cacheWrite := c\<rparr>) = 0"
      using that by (simp_all add: net_input_def)
    moreover have "per_million (u_cacheWrite u) (r_cacheWrite ?r) \<le> per_million c (r_cacheWrite ?r)"
      using r assms that by (intro per_million_mono) simp_all
    ultimately show ?thesis
      unfolding cost_def Let_def using out cr cw
      by (intro fadd_mono fadd_nonneg) simp_all
  qed
  from 1 2 3 4 show ?thesis by blast
qed

theorem cost_monotone_witness:
  "cost ''k2p5''
       \<lparr>u_input = 5, u_output = 1, u_cacheRead = 10, u_cacheWrite = 0, u_estimatedCost = None\<rparr>
     \<le> cost ''k2p5''
       \<lparr>u_input = 7, u_output = 1, u_cacheRead = 10, u_cacheWrite = 0, u_estimatedCost = None\<rparr>
   \<and> cost ''k2p5''
       \<lparr>u_input = 5, u_output = 1, u_cacheRead = 10, u_cacheWrite = 0, u_estimatedCost = None\<rparr>
     \<le> cost ''k2p5''
       \<lparr>u_input = 5, u_output = 2, u_cacheRead = 10, u_cacheWrite = 0, u_estimatedCost = None\<rparr>
   \<and> cost ''k2p5''
       \<lparr>u_input = 5, u_output = 1, u_cacheRead = 10, u_cacheWrite = 0, u_estimatedCost = None\<rparr>
     \<le> cost ''k2p5''
       \<lparr>u_input = 5, u_output = 1, u_cacheRead = 11, u_cacheWrite = 0, u_estimatedCost = None\<rparr>
   \<and> cost ''k2p5''
       \<lparr>u_input = 5, u_output = 1, u_cacheRead = 10, u_cacheWrite = 0, u_estimatedCost = None\<rparr>
     \<le> cost ''k2p5''
       \<lparr>u_input = 5, u_output = 1, u_cacheRead = 10, u_cacheWrite = 1, u_estimatedCost = None\<rparr>"
  using cost_monotone
    [of "\<lparr>u_input = 5, u_output = 1, u_cacheRead = 10, u_cacheWrite = 0, u_estimatedCost = None\<rparr>"
        7 "''k2p5''" 2 11 1]
  by simp

text \<open>
  Claim C5: for non-negative counters with \<open>cacheRead + cacheWrite > input\<close> the net
  input is clamped to zero, so that the input counter no longer enters the cost; and
  the cost of a non-negative tally is never negative, under every card of the pricing
  table and under the default card.
\<close>

theorem cost_never_negative:
  assumes "0 \<le> u_input u" "0 \<le> u_output u" "0 \<le> u_cacheRead u" "0 \<le> u_cacheWrite u"
  shows "(u_input u < u_cacheRead u + u_cacheWrite u \<longrightarrow>
            net_input u = 0 \<and> cost model u = cost model (u\<lparr>u_input := 0\<rparr>))
       \<and> 0 \<le> cost model u"
proof -
  note r = pricing_get_nonneg [of model]
  have "0 \<le> cost model u"
    unfolding cost_def Let_def using r assms
    by (intro fadd_nonneg per_million_nonneg) simp_all
  moreover have "net_input u = 0 \<and> cost model u = cost model (u\<lparr>u_input := 0\<rparr>)"
    if "u_input u < u_cacheRead u + u_cacheWrite u"
    using that assms by (simp add: cost_def net_input_def)
  ultimately show ?thesis by blast
qed

theorem cost_never_negative_witness:
  "net_input
       \<lparr>u_input = 5, u_output = 1, u_cacheRead = 10, u_cacheWrite = 0, u_estimatedCost = None\<rparr> = 0
   \<and> cost ''claude-opus-4-6''
       \<lparr>u_input = 5, u_output = 1, u_cacheRead = 10, u_cacheWrite = 0, u_estimatedCost = None\<rparr>
     = cost ''claude-opus-4-6''
       \<lparr>u_input = 0, u_output = 1, u_cacheRead = 10, u_cacheWrite = 0, u_estimatedCost = None\<rparr>
   \<and> 0 \<le> cost ''claude-opus-4-6''
       \<lparr>u_input = 5, u_output = 1, u_cacheRead = 10, u_cacheWrite = 0, u_estimatedCost = None\<rparr>"
  using cost_never_negative
    [of "\<lparr>u_input = 5, u_output = 1, u_cacheRead = 10, u_cacheWrite = 0, u_estimatedCost = None\<rparr>"
        "''claude-opus-4-6''"]
  by simp

section \<open>Sorting\<close>

lemma sort_desc_sorted: "sorted_wrt (\<lambda>a b. key b \<le> key a) (sort_desc key xs)"
proof -
  have "sorted (map key (sort_key key (rev xs)))" by (rule sorted_sort_key)
  then have "sorted_wrt (\<lambda>a b. key a \<le> key b) (sort_key key (rev xs))"
    by (simp add: sorted_map)
  then show ?thesis
    unfolding sort_desc_def by (simp add: sorted_wrt_rev)
qed

lemma sort_desc_mset [simp]: "mset (sort_desc key xs) = mset xs"
  by (simp add: sort_desc_def)

lemma sort_desc_length [simp]: "length (sort_desc key xs) = length xs"
  by (simp add: sort_desc_def)

lemma sorted_wrt_take: "sorted_wrt P xs \<Longrightarrow> sorted_wrt P (take n xs)"
  by (metis append_take_drop_id sorted_wrt_append)

section \<open>One line of a session file\<close>

lemma usage_line_before:
  assumes "w_loads w (strip line) = Some (JObj entry)"
    and "get entry ''timestamp'' (JStr []) = JStr ts" "ts \<noteq> []" "take 10 ts < cutoff_str"
  shows "usage_line w cutoff_str session_day st line = Next st"
  using assms by (simp add: usage_line_def ts_before_def Let_def)

lemma usage_line_record:
  assumes "strip line \<noteq> []" and \<open>contains ''"usage"'' (strip line)\<close>
    and "w_loads w (strip line) = Some (JObj entry)"
    and "ts_before (get entry ''timestamp'' (JStr [])) cutoff_str = Some False"
    and "get entry ''message'' (JObj []) = JObj msg"
    and "truthy (get msg ''usage'' JNull)"
    and "record_model entry msg = JStr model" "\<not> prefix ''<'' model"
  shows "usage_line w cutoff_str session_day st line =
           record_usage (get msg ''usage'' JNull) model
             (day_of (get entry ''timestamp'' (JStr [])) session_day) st"
  using assms by (simp add: usage_line_def Let_def)

lemma add_usage_counters:
  assumes "counter usage ''input_tokens'' = Some a" "counter usage ''output_tokens'' = Some b"
    and "counter usage ''cache_read_input_tokens'' = Some c"
    and "counter usage ''cache_creation_input_tokens'' = Some d"
  shows "add_usage usage t =
           Next (t\<lparr>u_input := u_input t + a, u_output := u_output t + b,
                   u_cacheRead := u_cacheRead t + c, u_cacheWrite := u_cacheWrite t + d\<rparr>)"
  using assms by (simp add: add_usage_def Let_def)

lemma record_usage_fresh:
  assumes "counter usage ''input_tokens'' = Some a" "counter usage ''output_tokens'' = Some b"
    and "counter usage ''cache_read_input_tokens'' = Some c"
    and "counter usage ''cache_creation_input_tokens'' = Some d"
  shows "record_usage usage model day ([], []) =
           Next ([(model, \<lparr>u_input = a, u_output = b, u_cacheRead = c, u_cacheWrite = d,
                          u_estimatedCost = None\<rparr>)],
                 [(day, [(model, \<lparr>u_input = a, u_output = b, u_cacheRead = c, u_cacheWrite = d,
                          u_estimatedCost = None\<rparr>)])])"
  by (simp add: record_usage_def ensure_def setdefault_def get_bucket_def bump_def
      add_usage_counters [OF assms] zero_usage_def Let_def)

lemma bump_fresh:
  assumes "counter usage ''input_tokens'' = Some a" "counter usage ''output_tokens'' = Some b"
    and "counter usage ''cache_read_input_tokens'' = Some c"
    and "counter usage ''cache_creation_input_tokens'' = Some d"
  shows "bump usage model (ensure model []) =
           Next [(model, \<lparr>u_input = a, u_output = b, u_cacheRead = c, u_cacheWrite = d,
                          u_estimatedCost = None\<rparr>)]"
  by (simp add: ensure_def bump_def add_usage_counters [OF assms] zero_usage_def)

lemma session_line_record:
  assumes line: "strip line \<noteq> []" \<open>contains ''"usage"'' line\<close>
      "w_loads w line = Some (JObj entry)"
    and ts: "get entry ''timestamp'' (JStr []) = JStr tsv"
    and msg: "get entry ''message'' (JObj []) = JObj msg" "truthy (get msg ''usage'' JNull)"
    and model: "record_model entry msg = JStr model" "\<not> prefix ''<'' model"
    and counters:
      "counter (get msg ''usage'' JNull) ''input_tokens'' = Some a"
      "counter (get msg ''usage'' JNull) ''output_tokens'' = Some b"
      "counter (get msg ''usage'' JNull) ''cache_read_input_tokens'' = Some c"
      "counter (get msg ''usage'' JNull) ''cache_creation_input_tokens'' = Some d"
  shows "\<exists>fts lts n.
           session_line w \<lparr>sc_by_model = [], sc_first_ts = JNull, sc_last_ts = JNull, sc_msg_count = 0\<rparr> line
             = Some \<lparr>sc_by_model =
                       [(model, \<lparr>u_input = a, u_output = b, u_cacheRead = c, u_cacheWrite = d,
                                  u_estimatedCost = None\<rparr>)],
                     sc_first_ts = fts, sc_last_ts = lts, sc_msg_count = n\<rparr>
         \<and> (fts = JNull \<or> fts = JStr tsv) \<and> (lts = JNull \<or> lts = JStr tsv)"
  using line ts msg model
  by (simp add: session_line_def Let_def bump_fresh [OF counters])


section \<open>A tree of one session file of one line\<close>

lemma usage_scan_single:
  assumes "p_isdir p" "p_files p = [f]" "fromtimestamp w (f_mtime f) = Some mt" "\<not> mt < cutoff"
  shows "usage_scan w cutoff cutoff_str [p] =
           (case usage_lines w cutoff_str (strftime_ymd mt) ([], []) (f_lines f) of
              (by_model, by_day) \<Rightarrow> (by_model, by_day, [(strftime_ymd mt, 1)]))"
  using assms by (simp add: usage_scan_def usage_project_def usage_file_def Let_def)

lemma sort_desc_single [simp]: "sort_desc key [x] = [x]"
  by (simp add: sort_desc_def)

lemma usage_single_record:
  assumes tree: "listing = [p]" "p_isdir p" "p_files p = [f]" "f_lines f = [line]"
    and recent: "fromtimestamp w (f_mtime f) = Some mt" "\<not> mt < cutoff"
    and line: "strip line \<noteq> []" \<open>contains ''"usage"'' (strip line)\<close>
      "w_loads w (strip line) = Some (JObj entry)"
    and ts: "ts_before (get entry ''timestamp'' (JStr [])) (strftime_ymd cutoff) = Some False"
    and msg: "get entry ''message'' (JObj []) = JObj msg" "truthy (get msg ''usage'' JNull)"
    and model: "record_model entry msg = JStr model" "\<not> prefix ''<'' model"
    and counters:
      "counter (get msg ''usage'' JNull) ''input_tokens'' = Some a"
      "counter (get msg ''usage'' JNull) ''output_tokens'' = Some b"
      "counter (get msg ''usage'' JNull) ''cache_read_input_tokens'' = Some c"
      "counter (get msg ''usage'' JNull) ''cache_creation_input_tokens'' = Some d"
    and t: "t = \<lparr>u_input = a, u_output = b, u_cacheRead = c, u_cacheWrite = d, u_estimatedCost = None\<rparr>"
    and sd: "sd = strftime_ymd mt"
    and day: "day = day_of (get entry ''timestamp'' (JStr [])) sd"
  shows "usage_report w listing cutoff days =
           \<lparr>uo_byModel = map with_cost (filter nonzero [(model, t)]),
            uo_byDay = [\<lparr>d_date = day, d_models = filter nonzero [(model, t)],
                         d_sessions = (if day = sd then 1 else 0)\<rparr>],
            uo_totalEstimatedCost =
              py_round (py_sum (w_fsum w) (map estimated (filter nonzero [(model, t)]))) 2,
            uo_totalSessions = 1, uo_days = days\<rparr>"
proof -
  have l: "usage_line w (strftime_ymd cutoff) sd ([], []) line =
             Next ([(model, t)], [(day, [(model, t)])])"
    unfolding usage_line_record [OF line ts msg model] t day
    by (rule record_usage_fresh [OF counters])
  have "usage_scan w cutoff (strftime_ymd cutoff) [p] =
          ([(model, t)], [(day, [(model, t)])], [(sd, 1)])"
    unfolding usage_scan_single [OF tree(2,3) recent] by (simp add: tree(4) l sd [symmetric])
  then show ?thesis
    by (simp add: usage_report_def tree(1) Let_def by_day_list_def)
qed

lemma max_by_single [simp]: "max_by key x [] = x"
  by (simp add: max_by_def)

lemma session_file_single_record:
  assumes recent: "fromtimestamp w (f_mtime f) = Some mt" "\<not> mt < cutoff"
    and lines: "f_lines f = [line]"
    and line: "strip line \<noteq> []" \<open>contains ''"usage"'' line\<close>
      "w_loads w line = Some (JObj entry)"
    and ts: "get entry ''timestamp'' (JStr []) = JStr tsv"
    and msg: "get entry ''message'' (JObj []) = JObj msg" "truthy (get msg ''usage'' JNull)"
    and model: "record_model entry msg = JStr model" "\<not> prefix ''<'' model"
    and counters:
      "counter (get msg ''usage'' JNull) ''input_tokens'' = Some a"
      "counter (get msg ''usage'' JNull) ''output_tokens'' = Some b"
      "counter (get msg ''usage'' JNull) ''cache_read_input_tokens'' = Some c"
      "counter (get msg ''usage'' JNull) ''cache_creation_input_tokens'' = Some d"
    and pos: "0 < a + b"
  shows "\<exists>row. session_file w cutoff project_display f = Some row
           \<and> s_primaryModel row = model \<and> s_totalInput row = a \<and> s_totalOutput row = b
           \<and> s_project row = project_display \<and> s_mtime row = f_mtime f"
proof -
  from session_line_record [OF line ts msg model counters]
  obtain fts lts n where
    sl: "session_line w \<lparr>sc_by_model = [], sc_first_ts = JNull, sc_last_ts = JNull, sc_msg_count = 0\<rparr> line
           = Some \<lparr>sc_by_model =
                     [(model, \<lparr>u_input = a, u_output = b, u_cacheRead = c, u_cacheWrite = d,
                                u_estimatedCost = None\<rparr>)],
                   sc_first_ts = fts, sc_last_ts = lts, sc_msg_count = n\<rparr>"
    and fl: "fts = JNull \<or> fts = JStr tsv" "lts = JNull \<or> lts = JStr tsv"
    by blast
  show ?thesis
    using recent pos fl
    by (auto simp add: session_file_def lines sl nonzero_def Let_def slice10_def)
qed

lemma sessions_single_record:
  assumes tree: "listing = [p]" "p_isdir p" "p_files p = [f]"
    and row: "session_file w cutoff (decode_project_folder w (p_folder p)) f = Some row"
    and limit: "1 \<le> limit"
  shows "sessions_report w listing cutoff days limit =
           \<lparr>so_sessions = [row], so_total = 1, so_days = days\<rparr>"
proof -
  have "session_rows w cutoff [p] = [row]"
    by (simp add: session_rows_def tree(2,3) row map_filter_simps)
  moreover have "slice_to [row] limit = [row]"
    using limit by (cases "nat limit") (simp_all add: slice_to_def)
  ultimately show ?thesis
    by (simp add: sessions_report_def tree(1) Let_def)
qed

section \<open>Tallies carry no cost while they are accumulated\<close>

lemma plain_Nil [simp]: "plain []"
  by (simp add: plain_def)

lemma set_alist_update: "e \<in> set (AList.update k v al) \<Longrightarrow> e = (k, v) \<or> e \<in> set al"
  by (induction al) (auto split: if_splits)

lemma plain_update: "plain b \<Longrightarrow> u_estimatedCost t = None \<Longrightarrow> plain (AList.update m t b)"
  unfolding plain_def using set_alist_update by fastforce

lemma plain_ensure: "plain b \<Longrightarrow> plain (ensure m b)"
  by (auto simp add: plain_def ensure_def zero_usage_def split: option.splits)

lemma plain_filter: "plain b \<Longrightarrow> plain (filter P b)"
  by (simp add: plain_def)

lemma add_usage_cost: "u_estimatedCost (outcome (add_usage usage t)) = u_estimatedCost t"
  by (simp add: add_usage_def Let_def split: option.splits)

lemma plain_bump:
  assumes "plain b"
  shows "plain (outcome (bump usage m b))"
proof (cases "map_of b m")
  case None
  then show ?thesis using assms by (simp add: bump_def)
next
  case (Some t)
  then have "(m, t) \<in> set b" by (rule map_of_SomeD)
  with assms have "u_estimatedCost t = None" by (auto simp add: plain_def)
  then have "u_estimatedCost (outcome (add_usage usage t)) = None"
    by (simp add: add_usage_cost)
  then show ?thesis
    using assms Some by (cases "add_usage usage t") (simp_all add: bump_def plain_update)
qed

lemma plain_get_bucket: "\<forall>db \<in> set by_day. plain (snd db) \<Longrightarrow> plain (get_bucket by_day d)"
  by (auto simp add: get_bucket_def split: option.splits dest!: map_of_SomeD)

lemma plain_days_update:
  "\<forall>db \<in> set by_day. plain (snd db) \<Longrightarrow> plain b \<Longrightarrow>
     \<forall>db \<in> set (AList.update d b by_day). plain (snd db)"
  using set_alist_update by fastforce

lemma plain_setdefault:
  "\<forall>db \<in> set by_day. plain (snd db) \<Longrightarrow> \<forall>db \<in> set (setdefault d by_day). plain (snd db)"
  by (auto simp add: setdefault_def split: option.splits)

lemma plain_record_usage:
  assumes "plain (fst st)" "\<forall>db \<in> set (snd st). plain (snd db)"
  shows "plain (fst (outcome (record_usage usage model day st)))
       \<and> (\<forall>db \<in> set (snd (outcome (record_usage usage model day st))). plain (snd db))"
proof -
  obtain bm bd where st: "st = (bm, bd)" by (cases st)
  let ?bm1 = "ensure model bm"
  let ?bd1 = "setdefault day bd"
  let ?bd2 = "AList.update day (ensure model (get_bucket ?bd1 day)) ?bd1"
  have bm1: "plain ?bm1" using assms st by (simp add: plain_ensure)
  have bd1: "\<forall>db \<in> set ?bd1. plain (snd db)"
    using assms st by (simp add: plain_setdefault)
  have bd2: "\<forall>db \<in> set ?bd2. plain (snd db)"
    by (intro plain_days_update bd1 plain_ensure plain_get_bucket)
  have bm2: "plain (outcome (bump usage model ?bm1))" by (rule plain_bump [OF bm1])
  have b: "plain (outcome (bump usage model (get_bucket ?bd2 day)))"
    by (intro plain_bump plain_get_bucket bd2)
  have bd3: "\<forall>db \<in> set (AList.update day (outcome (bump usage model (get_bucket ?bd2 day))) ?bd2).
               plain (snd db)"
    by (intro plain_days_update bd2 b)
  show ?thesis
    using bm2 bd2 bd3
    by (cases "bump usage model ?bm1"; cases "bump usage model (get_bucket ?bd2 day)")
       (simp_all add: record_usage_def st Let_def)
qed

lemma plain_usage_line:
  assumes "plain (fst st)" "\<forall>db \<in> set (snd st). plain (snd db)"
  shows "plain (fst (outcome (usage_line w cutoff_str session_day st line)))
       \<and> (\<forall>db \<in> set (snd (outcome (usage_line w cutoff_str session_day st line))). plain (snd db))"
  using assms plain_record_usage [OF assms]
  by (simp add: usage_line_def Let_def split: option.split json.split bool.split)

lemma plain_usage_lines:
  assumes "plain (fst st)" "\<forall>db \<in> set (snd st). plain (snd db)"
  shows "plain (fst (usage_lines w cutoff_str session_day st ls))
       \<and> (\<forall>db \<in> set (snd (usage_lines w cutoff_str session_day st ls)). plain (snd db))"
  using assms
proof (induction ls arbitrary: st)
  case Nil
  then show ?case by simp
next
  case (Cons l ls)
  from plain_usage_line [OF Cons.prems, of w cutoff_str session_day l]
  have o: "plain (fst (outcome (usage_line w cutoff_str session_day st l)))"
    "\<forall>db \<in> set (snd (outcome (usage_line w cutoff_str session_day st l))). plain (snd db)"
    by simp_all
  show ?case
  proof (cases "usage_line w cutoff_str session_day st l")
    case (Next st')
    with o Cons.IH [of st'] show ?thesis by simp
  next
    case (Abort st')
    with o show ?thesis by simp
  qed
qed

lemma plain_usage_file:
  assumes "plain (fst st)" "\<forall>db \<in> set (fst (snd st)). plain (snd db)"
  shows "plain (fst (usage_file w cutoff cutoff_str st f))
       \<and> (\<forall>db \<in> set (fst (snd (usage_file w cutoff cutoff_str st f))). plain (snd db))"
proof -
  obtain bm bd sd where st: "st = (bm, bd, sd)" by (cases st)
  have p: "plain (fst (bm, bd))" "\<forall>db \<in> set (snd (bm, bd)). plain (snd db)"
    using assms st by simp_all
  show ?thesis
  proof (cases "fromtimestamp w (f_mtime f)")
    case None
    then show ?thesis using assms by (simp add: usage_file_def st)
  next
    case (Some mt)
    obtain bm' bd' where
      ul: "usage_lines w cutoff_str (strftime_ymd mt) (bm, bd) (f_lines f) = (bm', bd')"
      by (cases "usage_lines w cutoff_str (strftime_ymd mt) (bm, bd) (f_lines f)")
    from plain_usage_lines [OF p, of w cutoff_str "strftime_ymd mt" "f_lines f"]
    have "plain bm'" "\<forall>db \<in> set bd'. plain (snd db)"
      by (simp_all add: ul)
    then show ?thesis
      using assms st by (simp add: usage_file_def Let_def ul Some)
  qed
qed

lemma plain_usage_files:
  assumes "plain (fst st)" "\<forall>db \<in> set (fst (snd st)). plain (snd db)"
  shows "plain (fst (foldl (usage_file w cutoff cutoff_str) st fs))
       \<and> (\<forall>db \<in> set (fst (snd (foldl (usage_file w cutoff cutoff_str) st fs))). plain (snd db))"
  using assms
proof (induction fs arbitrary: st)
  case Nil
  then show ?case by simp
next
  case (Cons f fs)
  from plain_usage_file [OF Cons.prems, of w cutoff cutoff_str f]
  have a: "plain (fst (usage_file w cutoff cutoff_str st f))"
    and b: "\<forall>db \<in> set (fst (snd (usage_file w cutoff cutoff_str st f))). plain (snd db)"
    by simp_all
  show ?case using Cons.IH [OF a b] by simp
qed

lemma plain_usage_project:
  assumes "plain (fst st)" "\<forall>db \<in> set (fst (snd st)). plain (snd db)"
  shows "plain (fst (usage_project w cutoff cutoff_str st p))
       \<and> (\<forall>db \<in> set (fst (snd (usage_project w cutoff cutoff_str st p))). plain (snd db))"
  using assms plain_usage_files [OF assms] by (simp add: usage_project_def)

lemma plain_usage_projects:
  assumes "plain (fst st)" "\<forall>db \<in> set (fst (snd st)). plain (snd db)"
  shows "plain (fst (foldl (usage_project w cutoff cutoff_str) st ps))
       \<and> (\<forall>db \<in> set (fst (snd (foldl (usage_project w cutoff cutoff_str) st ps))). plain (snd db))"
  using assms
proof (induction ps arbitrary: st)
  case Nil
  then show ?case by simp
next
  case (Cons p ps)
  from plain_usage_project [OF Cons.prems, of w cutoff cutoff_str p]
  have a: "plain (fst (usage_project w cutoff cutoff_str st p))"
    and b: "\<forall>db \<in> set (fst (snd (usage_project w cutoff cutoff_str st p))). plain (snd db)"
    by simp_all
  show ?case using Cons.IH [OF a b] by simp
qed

lemma plain_usage_scan:
  "plain (fst (usage_scan w cutoff cutoff_str listing))
   \<and> (\<forall>db \<in> set (fst (snd (usage_scan w cutoff cutoff_str listing))). plain (snd db))"
  unfolding usage_scan_def by (rule plain_usage_projects) simp_all

lemma set_sort_desc [simp]: "set (sort_desc key xs) = set xs"
  by (simp add: sort_desc_def)

lemma cost_ignores_estimate [simp]: "cost m (u\<lparr>u_estimatedCost := c\<rparr>) = cost m u"
  by (simp add: cost_def net_input_def)

lemma by_day_list_plain:
  assumes "\<forall>db \<in> set by_day. plain (snd db)" "b \<in> set (by_day_list by_day sessions_by_day)"
  shows "plain (d_models b)"
  using assms by (auto simp add: by_day_list_def plain_filter)

section \<open>Taking a session file out of the tree\<close>

lemma py_round_zero [simp]: "py_round 0 n = 0"
  by (simp add: py_round_def round_half_even_def)

lemma usage_project_no_files:
  "p_isdir p \<longrightarrow> p_files p = [] \<Longrightarrow> usage_project w cutoff cutoff_str st p = st"
  by (auto simp add: usage_project_def)

lemma usage_scan_no_files:
  "\<forall>p \<in> set listing. p_isdir p \<longrightarrow> p_files p = [] \<Longrightarrow>
     foldl (usage_project w cutoff cutoff_str) st listing = st"
  by (induction listing arbitrary: st) (simp_all add: usage_project_no_files)

lemma session_rows_Nil [simp]: "session_rows w cutoff [] = []"
  by (simp add: session_rows_def)

lemma session_rows_Cons:
  "session_rows w cutoff (p # ps) =
     (if p_isdir p
      then List.map_filter (session_file w cutoff (decode_project_folder w (p_folder p))) (p_files p)
      else []) @ session_rows w cutoff ps"
  by (simp add: session_rows_def)

lemma session_rows_append:
  "session_rows w cutoff (ps @ qs) = session_rows w cutoff ps @ session_rows w cutoff qs"
  by (simp add: session_rows_def)

lemma session_rows_no_files:
  "\<forall>p \<in> set listing. p_isdir p \<longrightarrow> p_files p = [] \<Longrightarrow> session_rows w cutoff listing = []"
proof (induction listing)
  case Nil
  show ?case by simp
next
  case (Cons p ps)
  then have "p_isdir p \<longrightarrow> p_files p = []" and "session_rows w cutoff ps = []" by simp_all
  then show ?case
    by (cases "p_isdir p") (simp_all add: session_rows_Cons map_filter_simps)
qed

lemma usage_file_old:
  "fromtimestamp w (f_mtime f) = Some mt \<Longrightarrow> mt < cutoff \<Longrightarrow>
     usage_file w cutoff cutoff_str st f = st"
  by (simp add: usage_file_def split: prod.split)

lemma session_file_old:
  "fromtimestamp w (f_mtime f) = Some mt \<Longrightarrow> mt < cutoff \<Longrightarrow>
     session_file w cutoff project_display f = None"
  by (simp add: session_file_def)

lemma usage_project_drop_old:
  assumes "p_files p = fs1 @ f # fs2" "fromtimestamp w (f_mtime f) = Some mt" "mt < cutoff"
  shows "usage_project w cutoff cutoff_str st p
       = usage_project w cutoff cutoff_str st (p\<lparr>p_files := fs1 @ fs2\<rparr>)"
  using assms by (simp add: usage_project_def usage_file_old [OF assms(2,3)])

lemma map_filter_append: "List.map_filter g (xs @ ys) = List.map_filter g xs @ List.map_filter g ys"
  by (simp add: List.map_filter_def)


lemma session_rows_drop_old:
  assumes "p_files p = fs1 @ f # fs2" "fromtimestamp w (f_mtime f) = Some mt" "mt < cutoff"
  shows "session_rows w cutoff (ps1 @ p # ps2)
       = session_rows w cutoff (ps1 @ p\<lparr>p_files := fs1 @ fs2\<rparr> # ps2)"
  using assms
  by (simp add: session_rows_append session_rows_Cons map_filter_append map_filter_simps
      session_file_old [OF assms(2,3)])

lemma usage_file_tallies:
  "(fst (usage_file w cutoff cutoff_str st f), fst (snd (usage_file w cutoff cutoff_str st f)))
     = (case fromtimestamp w (f_mtime f) of
          None \<Rightarrow> (fst st, fst (snd st))
        | Some mt \<Rightarrow>
            if mt < cutoff then (fst st, fst (snd st))
            else usage_lines w cutoff_str (strftime_ymd mt) (fst st, fst (snd st)) (f_lines f))"
  by (cases st) (simp add: usage_file_def Let_def split: prod.split option.split)

lemma usage_files_tallies:
  assumes "fst st = fst st'" "fst (snd st) = fst (snd st')"
  shows "fst (foldl (usage_file w cutoff cutoff_str) st fs)
           = fst (foldl (usage_file w cutoff cutoff_str) st' fs)
       \<and> fst (snd (foldl (usage_file w cutoff cutoff_str) st fs))
           = fst (snd (foldl (usage_file w cutoff cutoff_str) st' fs))"
  using assms
proof (induction fs arbitrary: st st')
  case Nil
  then show ?case by simp
next
  case (Cons f fs)
  have "(fst (usage_file w cutoff cutoff_str st f), fst (snd (usage_file w cutoff cutoff_str st f)))
      = (fst (usage_file w cutoff cutoff_str st' f), fst (snd (usage_file w cutoff cutoff_str st' f)))"
    unfolding usage_file_tallies using Cons.prems by (simp split: option.split)
  then have a: "fst (usage_file w cutoff cutoff_str st f) = fst (usage_file w cutoff cutoff_str st' f)"
    and b: "fst (snd (usage_file w cutoff cutoff_str st f)) = fst (snd (usage_file w cutoff cutoff_str st' f))"
    by simp_all
  show ?case using Cons.IH [OF a b] by simp
qed

lemma usage_project_tallies:
  assumes "fst st = fst st'" "fst (snd st) = fst (snd st')"
  shows "fst (usage_project w cutoff cutoff_str st p) = fst (usage_project w cutoff cutoff_str st' p)
       \<and> fst (snd (usage_project w cutoff cutoff_str st p))
           = fst (snd (usage_project w cutoff cutoff_str st' p))"
  using assms usage_files_tallies [OF assms] by (simp add: usage_project_def)

lemma usage_projects_tallies:
  assumes "fst st = fst st'" "fst (snd st) = fst (snd st')"
  shows "fst (foldl (usage_project w cutoff cutoff_str) st ps)
           = fst (foldl (usage_project w cutoff cutoff_str) st' ps)
       \<and> fst (snd (foldl (usage_project w cutoff cutoff_str) st ps))
           = fst (snd (foldl (usage_project w cutoff cutoff_str) st' ps))"
  using assms
proof (induction ps arbitrary: st st')
  case Nil
  then show ?case by simp
next
  case (Cons p ps)
  from usage_project_tallies [OF Cons.prems, of w cutoff cutoff_str p]
  have a: "fst (usage_project w cutoff cutoff_str st p) = fst (usage_project w cutoff cutoff_str st' p)"
    and b: "fst (snd (usage_project w cutoff cutoff_str st p))
              = fst (snd (usage_project w cutoff cutoff_str st' p))"
    by simp_all
  show ?case using Cons.IH [OF a b] by simp
qed

lemma usage_file_before:
  assumes "f_lines f = [line]" "w_loads w (strip line) = Some (JObj entry)"
    and "get entry ''timestamp'' (JStr []) = JStr ts" "ts \<noteq> []" "take 10 ts < cutoff_str"
  shows "fst (usage_file w cutoff cutoff_str st f) = fst st
       \<and> fst (snd (usage_file w cutoff cutoff_str st f)) = fst (snd st)"
proof -
  have "usage_lines w cutoff_str sd tb [line] = tb" for sd tb
    by (simp add: usage_line_before [OF assms(2-5)])
  then show ?thesis
    using usage_file_tallies [of w cutoff cutoff_str st f]
    by (simp add: assms(1) split: if_splits option.splits)
qed

lemma usage_project_drop_before:
  assumes "p_files p = fs1 @ f # fs2"
    and "f_lines f = [line]" "w_loads w (strip line) = Some (JObj entry)"
    and "get entry ''timestamp'' (JStr []) = JStr ts" "ts \<noteq> []" "take 10 ts < cutoff_str"
  shows "fst (usage_project w cutoff cutoff_str st p)
           = fst (usage_project w cutoff cutoff_str st (p\<lparr>p_files := fs1 @ fs2\<rparr>))
       \<and> fst (snd (usage_project w cutoff cutoff_str st p))
           = fst (snd (usage_project w cutoff cutoff_str st (p\<lparr>p_files := fs1 @ fs2\<rparr>)))"
proof -
  let ?F = "usage_file w cutoff cutoff_str"
  from usage_file_before [OF assms(2-6), of cutoff "foldl ?F st fs1"]
  have "fst (?F (foldl ?F st fs1) f) = fst (foldl ?F st fs1)"
    "fst (snd (?F (foldl ?F st fs1) f)) = fst (snd (foldl ?F st fs1))" by simp_all
  from usage_files_tallies [OF this, of w cutoff cutoff_str fs2]
  show ?thesis by (simp add: usage_project_def assms(1))
qed

lemma insort_key_map:
  "insort_key k (g x) (map g ys) = map g (insort_key (\<lambda>x. k (g x)) x ys)"
  by (induction ys) simp_all

lemma sort_key_map: "sort_key k (map g xs) = map g (sort_key (\<lambda>x. k (g x)) xs)"
  by (induction xs) (simp_all add: insort_key_map)

lemma sort_desc_map: "sort_desc k (map g xs) = map g (sort_desc (\<lambda>x. k (g x)) xs)"
proof -
  have "sort_key k (rev (map g xs)) = sort_key k (map g (rev xs))"
    by (simp only: rev_map)
  also have "\<dots> = map g (sort_key (\<lambda>x. k (g x)) (rev xs))"
    by (rule sort_key_map)
  finally show ?thesis
    by (simp add: sort_desc_def rev_map)
qed

lemma by_day_list_dates:
  "map d_date (by_day_list by_day sd)
     = map fst (sort_desc fst (filter (\<lambda>(d, models). models \<noteq> []) by_day))"
  by (simp add: by_day_list_def sort_desc_map case_prod_beta cong: map_cong)

lemma by_day_list_models:
  "map d_models (by_day_list by_day sd)
     = map (\<lambda>e. filter nonzero (snd e)) (sort_desc fst (filter (\<lambda>(d, models). models \<noteq> []) by_day))"
  by (simp add: by_day_list_def sort_desc_map case_prod_beta cong: map_cong)

lemma usage_scan_drop_old:
  assumes "p_files p = fs1 @ f # fs2" "fromtimestamp w (f_mtime f) = Some mt" "mt < cutoff"
  shows "usage_scan w cutoff cutoff_str (ps1 @ p # ps2)
       = usage_scan w cutoff cutoff_str (ps1 @ p\<lparr>p_files := fs1 @ fs2\<rparr> # ps2)"
  by (simp add: usage_scan_def usage_project_drop_old [OF assms])

lemma usage_scan_drop_before:
  assumes "p_files p = fs1 @ f # fs2"
    and "f_lines f = [line]" "w_loads w (strip line) = Some (JObj entry)"
    and "get entry ''timestamp'' (JStr []) = JStr ts" "ts \<noteq> []" "take 10 ts < cutoff_str"
  shows "fst (usage_scan w cutoff cutoff_str (ps1 @ p # ps2))
           = fst (usage_scan w cutoff cutoff_str (ps1 @ p\<lparr>p_files := fs1 @ fs2\<rparr> # ps2))
       \<and> fst (snd (usage_scan w cutoff cutoff_str (ps1 @ p # ps2)))
           = fst (snd (usage_scan w cutoff cutoff_str (ps1 @ p\<lparr>p_files := fs1 @ fs2\<rparr> # ps2)))"
proof -
  let ?P = "usage_project w cutoff cutoff_str"
  from usage_project_drop_before [OF assms, of cutoff "foldl ?P ([], [], []) ps1"]
  have "fst (?P (foldl ?P ([], [], []) ps1) p)
          = fst (?P (foldl ?P ([], [], []) ps1) (p\<lparr>p_files := fs1 @ fs2\<rparr>))"
    "fst (snd (?P (foldl ?P ([], [], []) ps1) p))
          = fst (snd (?P (foldl ?P ([], [], []) ps1) (p\<lparr>p_files := fs1 @ fs2\<rparr>)))"
    by simp_all
  from usage_projects_tallies [OF this, of w cutoff cutoff_str ps2]
  show ?thesis by (simp add: usage_scan_def)
qed

lemma usage_report_scan:
  "usage_report w listing cutoff days =
     \<lparr>uo_byModel =
        map with_cost (filter nonzero (fst (usage_scan w cutoff (strftime_ymd cutoff) listing))),
      uo_byDay =
        by_day_list
          (fst (snd (usage_scan w cutoff (strftime_ymd cutoff) listing)))
          (snd (snd (usage_scan w cutoff (strftime_ymd cutoff) listing))),
      uo_totalEstimatedCost =
        py_round (py_sum (w_fsum w)
          (map estimated
            (filter nonzero (fst (usage_scan w cutoff (strftime_ymd cutoff) listing))))) 2,
      uo_totalSessions =
        sum_list (map snd (snd (snd (usage_scan w cutoff (strftime_ymd cutoff) listing)))),
      uo_days = days\<rparr>"
  by (simp add: usage_report_def Let_def split: prod.split)

end
